theory Spec2Isabelle
  imports Main "HOL-Library.Word" "HOL-Library.AList"
begin

section \<open>Shared data\<close>

text \<open>
  Hashes and transaction identifiers are 32-byte values; only their identity and
  their order are used below, so they are numbers.
\<close>

type_synonym hash = nat
type_synonym txID = nat

text \<open>The rule-error codes of package common that the modelled functions raise.\<close>

datatype errorCode = ErrFinality | ErrBadUTXOCommitment | ErrInvalidGas | ErrMissingTxOut
  | ErrBadMerkleRoot | ErrOtherRule

text \<open>
  A Go error value: a rule error (common.RuleError with its code) or any other error
  (a database failure, a missing entry).
\<close>

datatype error = RuleError errorCode | OtherError string

text \<open>
  A Go call ends by returning a value, by returning an error, or by a panic (here the
  dereference of a nil pointer, or the explicit \<^verbatim>\<open>panic(err)\<close> of connectBlock).
\<close>

datatype failure = Err error | NilDereference | PanicErr string

text \<open>Transactions (wire.MsgTx behind util.Tx), as far as the DAG code reads them.\<close>

record outpoint =
  TxID :: txID
  Index :: "32 word"

record txIn =
  PreviousOutpoint :: outpoint

record txOut =
  Value :: "64 word"
  ScriptPubKey :: "8 word list"

record utilTx =
  ID :: txID
  TxIn :: "txIn list"
  TxOut :: "txOut list"
  IsCoinBase :: bool

text \<open>A block (util.Block): its hash, the header fields read below, its transactions.\<close>

record utilBlock =
  Hash :: hash
  Timestamp :: int
  ParentHashes :: "hash list"
  Transactions :: "utilTx list"

text \<open>UTXO entries, collections keyed by outpoint, and diffs (utxo_diff.go).\<close>

record UTXOEntry =
  Amount :: "64 word"
  ScriptPublicKey :: "8 word list"
  BlockBlueScore :: "64 word"
  IsCoinbase :: bool

type_synonym utxoCollection = "outpoint \<rightharpoonup> UTXOEntry"

record utxoDiff =
  toAdd :: utxoCollection
  toRemove :: utxoCollection

definition NewUTXODiff :: utxoDiff where
  "NewUTXODiff = \<lparr>toAdd = Map.empty, toRemove = Map.empty\<rparr>"

text \<open>
  dagconfig.KType is the type of the GHOSTDAG parameter K and of the blue anticone
  sizes; the block index reads and writes it as a uint8.
\<close>

type_synonym KType = "8 word"

text \<open>
  A block node. Nodes point to their parents and to their selected parent, and are
  never changed once they are in the index, so a node is the finite tree of what it
  points to; two pointers are equal when the nodes are. A nil pointer is \<open>None\<close>.
  The map bluesAnticoneSizes, keyed by node, is an association list.
\<close>

datatype blockNode = BlockNode
  (hash: hash)
  (parents: "blockNode list")
  (selectedParent: "blockNode option")
  (blues: "blockNode list")
  (bluesAnticoneSizes: "(blockNode \<times> KType) list")
  (blueScore: "64 word")
  (utxoCommitment: hash)

definition IsGenesis :: "blockNode \<Rightarrow> bool" where
  "IsGenesis node = (length (parents node) = 0)"

section \<open>protocol/blocks.go: OnNewBlock\<close>

text \<open>
  A slice of \<^verbatim>\<open>*daghash.TxID\<close>: every element is a pointer, \<open>None\<close> is nil.
  \<^verbatim>\<open>make([]*daghash.TxID, n)\<close> is a slice of n nil pointers whose capacity is n.
\<close>

definition make_slice :: "nat \<Rightarrow> txID option list" where
  "make_slice n = replicate n None"

text \<open>
  Go's builtin \<^verbatim>\<open>copy(dst, src)\<close>: it copies min(len dst, len src) elements, and
  overlapping arguments are read before they are written. The result is the new
  contents of dst.
\<close>

definition go_copy :: "'a list \<Rightarrow> 'a list \<Rightarrow> 'a list" where
  "go_copy dst src =
     (let n = min (length dst) (length src) in take n src @ drop n dst)"

text \<open>
  The loop \<^verbatim>\<open>for i, tx := range transactionsAcceptedToMempool { ids[i] = tx.ID() }\<close>.
  The slice is long enough for every index by construction.
\<close>

fun fill_ids :: "nat \<Rightarrow> txID list \<Rightarrow> txID option list \<Rightarrow> txID option list" where
  "fill_ids i [] ids = ids"
| "fill_ids i (t # ts) ids = fill_ids (Suc i) ts (ids[i := Some t])"

text \<open>
  What a call of OnNewBlock does: it returns the error of HandleNewBlock, returns nil
  while in IBD, panics at the slice expression, or returns what Broadcast returns for
  the inventory it was handed.
\<close>

datatype onNewBlockOutcome =
    ReturnErr error
  | ReturnNilInIBD
  | PanicSliceBounds
  | ReturnBroadcast "txID option list"

text \<open>
  \<open>handled\<close> is the result of \<^verbatim>\<open>m.txPool.HandleNewBlock(block)\<close> (the IDs of the
  accepted transactions, or its error), \<open>isInIBD\<close> the atomic flag,
  \<open>shouldRebroadcast\<close> and \<open>rebroadcast\<close> the results of
  \<^verbatim>\<open>m.shouldRebroadcastTransactions()\<close> and \<^verbatim>\<open>m.txIDsToRebroadcast()\<close>, and
  \<open>MaxInvPerTxInvMsg\<close> the constant of package wire, which is not part of the
  sources at hand. A slice expression \<^verbatim>\<open>s[:k]\<close> panics when k exceeds cap(s).
\<close>

definition OnNewBlock ::
  "nat \<Rightarrow> (error + txID list) \<Rightarrow> 32 word \<Rightarrow> bool \<Rightarrow> txID option list \<Rightarrow> onNewBlockOutcome" where
  "OnNewBlock MaxInvPerTxInvMsg handled isInIBD shouldRebroadcast rebroadcast =
     (case handled of
        Inl err \<Rightarrow> ReturnErr err
      | Inr transactionsAcceptedToMempool \<Rightarrow>
          if isInIBD \<noteq> 0 then ReturnNilInIBD
          else
            let txIDsToRebroadcast = (if shouldRebroadcast then rebroadcast else []);
                n = length transactionsAcceptedToMempool;
                txIDsToBroadcast0 = make_slice (n + length txIDsToRebroadcast);
                txIDsToBroadcast1 = fill_ids 0 transactionsAcceptedToMempool txIDsToBroadcast0;
                txIDsToBroadcast2 =
                  take n txIDsToBroadcast1 @ go_copy (drop n txIDsToBroadcast1) txIDsToBroadcast1
            in if MaxInvPerTxInvMsg > length txIDsToBroadcast2 then PanicSliceBounds
               else ReturnBroadcast (take MaxInvPerTxInvMsg txIDsToBroadcast2))"

section \<open>kaspad.go: checkIncomingConnections\<close>

text \<open>
  A connection set, in the order the \<^verbatim>\<open>range\<close> loop visits it. The loop disconnects
  the connection it visits (an error of Disconnect is logged and dropped) and removes
  it from the set; the state is the list of disconnected connections and the set.
\<close>

fun disconnect_all :: "'c list \<Rightarrow> 'c list \<times> 'c list \<Rightarrow> 'c list \<times> 'c list" where
  "disconnect_all [] st = st"
| "disconnect_all (connection # rest) (disconnected, connSet) =
     disconnect_all rest (disconnected @ [connection], removeAll connection connSet)"

definition checkIncomingConnections :: "int \<Rightarrow> 'c list \<Rightarrow> 'c list \<times> 'c list" where
  "checkIncomingConnections maxIncoming connSet =
     (if int (length connSet) \<le> maxIncoming then ([], connSet)
      else disconnect_all connSet ([], connSet))"

section \<open>consensus/blockdag/dag.go: applyBlueBlocks\<close>

text \<open>
  Modelled from the spec: the UTXO set types (FullUTXOSet, DiffUTXOSet) and
  DiffUTXOSet.AddTx are not among the sources at hand. The spec (4.4, past-UTXO
  construction) says: a transaction is accepted iff every input's referenced outpoint
  exists in the current past-UTXO (not yet spent by earlier transactions in the same
  topological scan); and (UTXO commitment check) an accepted transaction removes each
  input's UTXO entry and then adds each output entry. A UTXO set is the collection of
  its entries, keyed by outpoint; the entry of output i of a transaction is keyed by
  the transaction's ID and i and carries the blue score handed to AddTx. The spec
  names no failure of AddTx, so the error the source checks for never arises here.
\<close>

definition containsInputs :: "utxoCollection \<Rightarrow> utilTx \<Rightarrow> bool" where
  "containsInputs u tx = list_all (\<lambda>i. u (PreviousOutpoint i) \<noteq> None) (TxIn tx)"

fun removeInputs :: "txIn list \<Rightarrow> utxoCollection \<Rightarrow> utxoCollection" where
  "removeInputs [] u = u"
| "removeInputs (i # ins) u = removeInputs ins (u(PreviousOutpoint i := None))"

fun addOutputs :: "utilTx \<Rightarrow> 64 word \<Rightarrow> nat \<Rightarrow> txOut list \<Rightarrow> utxoCollection \<Rightarrow> utxoCollection" where
  "addOutputs tx blockBlueScore i [] u = u"
| "addOutputs tx blockBlueScore i (out # outs) u =
     addOutputs tx blockBlueScore (Suc i) outs
       (u(\<lparr>TxID = ID tx, Index = of_nat i\<rparr> \<mapsto>
            \<lparr>Amount = Value out, ScriptPublicKey = ScriptPubKey out,
             BlockBlueScore = blockBlueScore, IsCoinbase = IsCoinBase tx\<rparr>))"

definition AddTx :: "utxoCollection \<Rightarrow> utilTx \<Rightarrow> 64 word \<Rightarrow> error + (bool \<times> utxoCollection)" where
  "AddTx u tx blockBlueScore =
     (if \<not> containsInputs u tx then Inr (False, u)
      else Inr (True, addOutputs tx blockBlueScore 0 (TxOut tx) (removeInputs (TxIn tx) u)))"

record txAcceptanceData =
  Tx :: utilTx
  IsAccepted :: bool

record blockTxsAcceptanceData =
  BlockHash :: hash
  TxAcceptanceData :: "txAcceptanceData list"

type_synonym multiBlockTxsAcceptanceData = "blockTxsAcceptanceData list"

text \<open>
  The inner loop of applyBlueBlocks over the transactions of one blue block: the
  accumulating past UTXO is threaded through, the acceptance entries are collected in
  block order, and an error of AddTx ends the call.
\<close>

fun applyTransactions ::
  "blockNode \<Rightarrow> bool \<Rightarrow> utilTx list \<Rightarrow> utxoCollection
     \<Rightarrow> error + (utxoCollection \<times> txAcceptanceData list)" where
  "applyTransactions node isSelectedParent [] pastUTXO = Inr (pastUTXO, [])"
| "applyTransactions node isSelectedParent (tx # txs) pastUTXO =
     (if \<not> isSelectedParent \<and> IsCoinBase tx then
        (case applyTransactions node isSelectedParent txs pastUTXO of
           Inl err \<Rightarrow> Inl err
         | Inr (pastUTXO', accs) \<Rightarrow> Inr (pastUTXO', \<lparr>Tx = tx, IsAccepted = False\<rparr> # accs))
      else
        (case AddTx pastUTXO tx (blueScore node) of
           Inl err \<Rightarrow> Inl err
         | Inr (isAccepted, pastUTXO1) \<Rightarrow>
             (case applyTransactions node isSelectedParent txs pastUTXO1 of
                Inl err \<Rightarrow> Inl err
              | Inr (pastUTXO', accs) \<Rightarrow>
                  Inr (pastUTXO', \<lparr>Tx = tx, IsAccepted = isAccepted\<rparr> # accs))))"

text \<open>The outer loop, from index i on; the selected parent is the blue block at index 0.\<close>

fun applyBlocks ::
  "blockNode \<Rightarrow> nat \<Rightarrow> utilBlock list \<Rightarrow> utxoCollection
     \<Rightarrow> error + (utxoCollection \<times> multiBlockTxsAcceptanceData)" where
  "applyBlocks node i [] pastUTXO = Inr (pastUTXO, [])"
| "applyBlocks node i (blueBlock # rest) pastUTXO =
     (case applyTransactions node (i = 0) (Transactions blueBlock) pastUTXO of
        Inl err \<Rightarrow> Inl err
      | Inr (pastUTXO1, accs) \<Rightarrow>
          (case applyBlocks node (Suc i) rest pastUTXO1 of
             Inl err \<Rightarrow> Inl err
           | Inr (pastUTXO', data) \<Rightarrow>
               Inr (pastUTXO', \<lparr>BlockHash = Hash blueBlock, TxAcceptanceData = accs\<rparr> # data)))"

definition applyBlueBlocks ::
  "blockNode \<Rightarrow> utxoCollection \<Rightarrow> utilBlock list
     \<Rightarrow> error + (utxoCollection \<times> multiBlockTxsAcceptanceData)" where
  "applyBlueBlocks node selectedParentPastUTXO blueBlocks =
     applyBlocks node 0 blueBlocks selectedParentPastUTXO"

section \<open>consensus/blockdag/dag.go: finality\<close>

text \<open>
  The reachability tree is not among the sources at hand. Its query
  IsReachabilityTreeAncestorOf is a parameter: it answers, or fails with a plain
  (non-rule) error, whose message it gives.
\<close>

definition isInSelectedParentChainOf ::
  "(blockNode option \<Rightarrow> blockNode option \<Rightarrow> string + bool)
     \<Rightarrow> blockNode option \<Rightarrow> blockNode option \<Rightarrow> string + bool" where
  "isInSelectedParentChainOf IsReachabilityTreeAncestorOf node other =
     (if node = other then Inr False else IsReachabilityTreeAncestorOf node other)"

definition checkFinalityViolation ::
  "(blockNode option \<Rightarrow> blockNode option \<Rightarrow> string + bool)
     \<Rightarrow> blockNode option \<Rightarrow> blockNode \<Rightarrow> error option" where
  "checkFinalityViolation IsReachabilityTreeAncestorOf lastFinalityPoint newNode =
     (if IsGenesis newNode then None
      else if lastFinalityPoint = selectedParent newNode then None
      else
        (case isInSelectedParentChainOf IsReachabilityTreeAncestorOf lastFinalityPoint
                (selectedParent newNode) of
           Inl msg \<Rightarrow> Some (OtherError msg)
         | Inr isInSelectedChain \<Rightarrow>
             if \<not> isInSelectedChain then Some (RuleError ErrFinality) else None))"

section \<open>consensus/blockdag/dag.go: connecting a block\<close>

datatype statusFlag = StatusDataStored | StatusValid | StatusValidateFailed | StatusInvalidAncestor

type_synonym blockStatus = "statusFlag set"

datatype behaviorFlag = BFFastAdd | BFWasStored | BFWasUnorphaned

record chainUpdates =
  RemovedChainBlockHashes :: "hash list"
  AddedChainBlockHashes :: "hash list"

text \<open>
  The state of the DAG that connecting a block reads and writes. The block node store
  holds the status of every node and the set of nodes changed since the last flush.
  \<open>inMemory\<close> stands for the rest of the state in memory (the virtual block and
  its tips, the reachability tree, the UTXO set, the diff and multiset stores).
  The database is the block index (the stored row of a node, of which only the
  status changes here) and \<open>dbBuckets\<close>, all its other buckets (DAG state with the
  tips, reachability data, UTXO set, UTXO diffs, multisets, fee data).
\<close>

record ('m, 'd) blockDAG =
  nodeStatus :: "blockNode \<Rightarrow> blockStatus"
  dirtyEntries :: "blockNode set"
  blockCount :: "64 word"
  lastFinalityPoint :: "blockNode option"
  inMemory :: 'm
  dbBlockIndex :: "blockNode \<rightharpoonup> blockStatus"
  dbBuckets :: 'd

text \<open>
  Modelled from the spec: the block node store (BlockNodeStore with SetStatusFlags,
  NodeStatus and FlushToDB) and package blockstatus are not among the sources at hand.
  Spec 4.1: the store offers set-status(handle, flags), node-status(handle) and
  flush-to-tx(tx), and tracks a dirty set which flush writes out; spec 3: the status
  bits are data-stored, valid, validate-failed and invalid-ancestor.
\<close>

definition SetStatusFlags :: "('m, 'd) blockDAG \<Rightarrow> blockNode \<Rightarrow> blockStatus \<Rightarrow> ('m, 'd) blockDAG" where
  "SetStatusFlags dag node flags =
     dag\<lparr>nodeStatus := (nodeStatus dag)(node := nodeStatus dag node \<union> flags),
         dirtyEntries := insert node (dirtyEntries dag)\<rparr>"

definition KnownValid :: "blockStatus \<Rightarrow> bool" where
  "KnownValid status = (StatusValid \<in> status)"

definition FlushToDB :: "('m, 'd) blockDAG \<Rightarrow> (blockNode \<rightharpoonup> blockStatus)" where
  "FlushToDB dag =
     (\<lambda>node. if node \<in> dirtyEntries dag then Some (nodeStatus dag node)
             else dbBlockIndex dag node)"

text \<open>
  What connecting a block calls and the sources at hand do not define, or define in
  terms of stores that are not at hand. Each function reads the DAG as it is when
  connectBlock is entered; only applyDAGChanges and saveChangesFromBlock change it.
  \<open>NewTx\<close>, \<open>FlushToDBError\<close> and \<open>Commit\<close> are the errors, if any, of the
  database transaction that addBlock opens.
\<close>

record ('ms, 'm, 'd) collaborators =
  IsReachabilityTreeAncestorOf :: "blockNode option \<Rightarrow> blockNode option \<Rightarrow> string + bool"
  isSynced :: bool
  warnUnknownRuleActivations :: "blockNode \<Rightarrow> error option"
  warnUnknownVersions :: "blockNode \<Rightarrow> error option"
  validateGasLimit :: "utilBlock \<Rightarrow> error option"
  genesisPastUTXO :: "error + utxoCollection"
  restorePastUTXO :: "blockNode option \<Rightarrow> error + utxoCollection"
  fetchBlueBlocks :: "blockNode \<Rightarrow> error + utilBlock list"
  validateAcceptedIDMerkleRoot :: "blockNode \<Rightarrow> multiBlockTxsAcceptanceData \<Rightarrow> error option"
  checkConnectToPastUTXO ::
    "blockNode \<Rightarrow> utxoCollection \<Rightarrow> utilTx list \<Rightarrow> bool \<Rightarrow> error + 8 word list"
  calcMultiset ::
    "blockNode \<Rightarrow> multiBlockTxsAcceptanceData \<Rightarrow> utxoCollection option \<Rightarrow> error + 'ms"
  Finalize :: "'ms \<Rightarrow> hash"
  ValidateCoinbaseTransaction ::
    "blockNode \<Rightarrow> utilBlock \<Rightarrow> multiBlockTxsAcceptanceData \<Rightarrow> error option"
  applyDAGChanges ::
    "('m, 'd) blockDAG \<Rightarrow> blockNode \<Rightarrow> utxoCollection \<Rightarrow> 'ms \<Rightarrow> blockNode list
       \<Rightarrow> string + (utxoDiff \<times> chainUpdates \<times> ('m, 'd) blockDAG)"
  saveChangesFromBlock ::
    "('m, 'd) blockDAG \<Rightarrow> utilBlock \<Rightarrow> utxoDiff \<Rightarrow> multiBlockTxsAcceptanceData \<Rightarrow> 8 word list
       \<Rightarrow> error option \<times> ('m, 'd) blockDAG"
  NewTx :: "string option"
  FlushToDBError :: "string option"
  Commit :: "string option"

definition pastUTXO ::
  "('ms, 'm, 'd) collaborators \<Rightarrow> blockNode
     \<Rightarrow> error + (utxoCollection \<times> utxoCollection option \<times> multiBlockTxsAcceptanceData)" where
  "pastUTXO env node =
     (if IsGenesis node then
        (case genesisPastUTXO env of
           Inl err \<Rightarrow> Inl err
         | Inr genesisPast \<Rightarrow> Inr (genesisPast, None, []))
      else
        (case restorePastUTXO env (selectedParent node) of
           Inl err \<Rightarrow> Inl err
         | Inr selectedParentPastUTXO \<Rightarrow>
             (case fetchBlueBlocks env node of
                Inl err \<Rightarrow> Inl err
              | Inr blueBlocks \<Rightarrow>
                  (case applyBlueBlocks node selectedParentPastUTXO blueBlocks of
                     Inl err \<Rightarrow> Inl err
                   | Inr (past, bluesTxsAcceptanceData) \<Rightarrow>
                       Inr (past, Some selectedParentPastUTXO, bluesTxsAcceptanceData)))))"

definition verifyAndBuildUTXO ::
  "('ms, 'm, 'd) collaborators \<Rightarrow> blockNode \<Rightarrow> utilTx list \<Rightarrow> bool
     \<Rightarrow> error + (utxoCollection \<times> multiBlockTxsAcceptanceData \<times> 8 word list \<times> 'ms)" where
  "verifyAndBuildUTXO env node transactions fastAdd =
     (case pastUTXO env node of
        Inl err \<Rightarrow> Inl err
      | Inr (past, selectedParentPastUTXO, txsAcceptanceData) \<Rightarrow>
     (case validateAcceptedIDMerkleRoot env node txsAcceptanceData of
        Some err \<Rightarrow> Inl err
      | None \<Rightarrow>
     (case checkConnectToPastUTXO env node past transactions fastAdd of
        Inl err \<Rightarrow> Inl err
      | Inr feeData \<Rightarrow>
     (case calcMultiset env node txsAcceptanceData selectedParentPastUTXO of
        Inl err \<Rightarrow> Inl err
      | Inr multiset \<Rightarrow>
          if Finalize env multiset \<noteq> utxoCommitment node
          then Inl (RuleError ErrBadUTXOCommitment)
          else Inr (past, txsAcceptanceData, feeData, multiset)))))"

text \<open>
  connectBlock. \<^verbatim>\<open>errors.Wrapf\<close> adds a message to the error of verifyAndBuildUTXO
  and keeps what \<^verbatim>\<open>errors.As\<close> finds in it, so the error is passed on as it is.
  An error of applyDAGChanges is a panic.
\<close>

definition connectBlock ::
  "('ms, 'm, 'd) collaborators \<Rightarrow> ('m, 'd) blockDAG \<Rightarrow> blockNode \<Rightarrow> utilBlock
     \<Rightarrow> blockNode list \<Rightarrow> bool \<Rightarrow> (failure + chainUpdates) \<times> ('m, 'd) blockDAG" where
  "connectBlock env dag node block selectedParentAnticone fastAdd =
     (case (if isSynced env
            then (case warnUnknownRuleActivations env node of
                    Some err \<Rightarrow> Some err
                  | None \<Rightarrow> warnUnknownVersions env node)
            else None) of
        Some err \<Rightarrow> (Inl (Err err), dag)
      | None \<Rightarrow>
     (case checkFinalityViolation (IsReachabilityTreeAncestorOf env) (lastFinalityPoint dag) node of
        Some err \<Rightarrow> (Inl (Err err), dag)
      | None \<Rightarrow>
     (case validateGasLimit env block of
        Some err \<Rightarrow> (Inl (Err err), dag)
      | None \<Rightarrow>
     (case verifyAndBuildUTXO env node (Transactions block) fastAdd of
        Inl err \<Rightarrow> (Inl (Err err), dag)
      | Inr (newBlockPastUTXO, txsAcceptanceData, newBlockFeeData, newBlockMultiSet) \<Rightarrow>
     (case ValidateCoinbaseTransaction env node block txsAcceptanceData of
        Some err \<Rightarrow> (Inl (Err err), dag)
      | None \<Rightarrow>
     (case applyDAGChanges env dag node newBlockPastUTXO newBlockMultiSet selectedParentAnticone of
        Inl msg \<Rightarrow> (Inl (PanicErr msg), dag)
      | Inr (virtualUTXODiff, updates, dag1) \<Rightarrow>
     (case saveChangesFromBlock env dag1 block virtualUTXODiff txsAcceptanceData newBlockFeeData of
        (Some err, dag2) \<Rightarrow> (Inl (Err err), dag2)
      | (None, dag2) \<Rightarrow> (Inr updates, dag2))))))))"

fun isRuleError :: "error \<Rightarrow> bool" where
  "isRuleError (RuleError code) = True"
| "isRuleError (OtherError msg) = False"

definition addBlock ::
  "('ms, 'm, 'd) collaborators \<Rightarrow> ('m, 'd) blockDAG \<Rightarrow> blockNode \<Rightarrow> utilBlock
     \<Rightarrow> blockNode list \<Rightarrow> behaviorFlag set \<Rightarrow> (failure + chainUpdates) \<times> ('m, 'd) blockDAG" where
  "addBlock env dag node block selectedParentAnticone flags =
     (let fastAdd = (BFFastAdd \<in> flags \<or> KnownValid (nodeStatus dag node)) in
      case connectBlock env dag node block selectedParentAnticone fastAdd of
        (Inl (Err err), dag1) \<Rightarrow>
          if isRuleError err then
            (let dag2 = SetStatusFlags dag1 node {StatusValidateFailed} in
             case NewTx env of
               Some msg \<Rightarrow> (Inl (Err (OtherError msg)), dag2)
             | None \<Rightarrow>
            (case FlushToDBError env of
               Some msg \<Rightarrow> (Inl (Err (OtherError msg)), dag2)
             | None \<Rightarrow>
            (case Commit env of
               Some msg \<Rightarrow> (Inl (Err (OtherError msg)), dag2)
             | None \<Rightarrow> (Inl (Err err), dag2\<lparr>dbBlockIndex := FlushToDB dag2\<rparr>))))
          else (Inl (Err err), dag1)
      | (Inl panic, dag1) \<Rightarrow> (Inl panic, dag1)
      | (Inr updates, dag1) \<Rightarrow> (Inr updates, dag1\<lparr>blockCount := blockCount dag1 + 1\<rparr>))"

section \<open>consensus/blockdag/dag.go: the orphan pool\<close>

definition maxOrphanBlocks :: nat where
  "maxOrphanBlocks = 100"

record orphanBlock =
  block :: utilBlock
  expiration :: int

text \<open>
  The orphan fields of BlockDAG. The map \<open>orphans\<close> is keyed by block hash and is an
  association list in the order in which a \<^verbatim>\<open>range\<close> loop visits it; a missing key
  of \<open>prevOrphans\<close> and a key with an empty slice are the same. \<open>newestOrphan\<close>
  is a pointer, \<open>None\<close> when nil. Times are milliseconds.
\<close>

record orphanPool =
  orphans :: "(hash \<times> orphanBlock) list"
  prevOrphans :: "hash \<Rightarrow> orphanBlock list"
  newestOrphan :: "orphanBlock option"

fun removeFromPrevOrphans ::
  "hash \<Rightarrow> hash list \<Rightarrow> (hash \<Rightarrow> orphanBlock list) \<Rightarrow> (hash \<Rightarrow> orphanBlock list)" where
  "removeFromPrevOrphans orphanHash [] prev = prev"
| "removeFromPrevOrphans orphanHash (parentHash # rest) prev =
     removeFromPrevOrphans orphanHash rest
       (prev(parentHash := filter (\<lambda>ob. Hash (block ob) \<noteq> orphanHash) (prev parentHash)))"

definition removeOrphanBlock :: "orphanPool \<Rightarrow> orphanBlock \<Rightarrow> orphanPool" where
  "removeOrphanBlock dag orphan =
     dag\<lparr>orphans := AList.delete (Hash (block orphan)) (orphans dag),
         prevOrphans := removeFromPrevOrphans (Hash (block orphan))
                          (ParentHashes (block orphan)) (prevOrphans dag)\<rparr>"

text \<open>
  The first loop of addOrphanBlock, over the orphans that were in the map when the
  loop began (removing the visited entry does not disturb the iteration). The model
  reads the clock once for the whole call.
\<close>

fun removeExpired :: "int \<Rightarrow> orphanBlock list \<Rightarrow> orphanPool \<Rightarrow> orphanPool" where
  "removeExpired now [] dag = dag"
| "removeExpired now (oBlock # rest) dag =
     (if now > expiration oBlock then removeExpired now rest (removeOrphanBlock dag oBlock)
      else if (case newestOrphan dag of
                 None \<Rightarrow> True
               | Some newest \<Rightarrow> Timestamp (block oBlock) > Timestamp (block newest))
      then removeExpired now rest (dag\<lparr>newestOrphan := Some oBlock\<rparr>)
      else removeExpired now rest dag)"

fun addToPrevOrphans ::
  "orphanBlock \<Rightarrow> hash list \<Rightarrow> (hash \<Rightarrow> orphanBlock list) \<Rightarrow> (hash \<Rightarrow> orphanBlock list)" where
  "addToPrevOrphans oBlock [] prev = prev"
| "addToPrevOrphans oBlock (parentHash # rest) prev =
     addToPrevOrphans oBlock rest (prev(parentHash := prev parentHash @ [oBlock]))"

definition hour :: int where
  "hour = 3600000"

definition insertOrphan :: "int \<Rightarrow> orphanPool \<Rightarrow> utilBlock \<Rightarrow> orphanPool" where
  "insertOrphan now dag b =
     (let oBlock = \<lparr>block = b, expiration = now + hour\<rparr> in
      dag\<lparr>orphans := AList.update (Hash b) oBlock (orphans dag),
          prevOrphans := addToPrevOrphans oBlock (ParentHashes b) (prevOrphans dag)\<rparr>)"

text \<open>
  addOrphanBlock. Reading the timestamp of a nil \<open>newestOrphan\<close> is a panic.
\<close>

definition addOrphanBlock :: "int \<Rightarrow> orphanPool \<Rightarrow> utilBlock \<Rightarrow> failure + orphanPool" where
  "addOrphanBlock now dag b =
     (let dag1 = removeExpired now (map snd (orphans dag)) dag in
      if length (orphans dag1) + 1 > maxOrphanBlocks then
        (case newestOrphan dag1 of
           None \<Rightarrow> Inl NilDereference
         | Some newest \<Rightarrow>
             if Timestamp b > Timestamp (block newest) then Inr dag1
             else Inr (insertOrphan now
                         ((removeOrphanBlock dag1 newest)\<lparr>newestOrphan := None\<rparr>) b))
      else Inr (insertOrphan now dag1 b))"

section \<open>GHOSTDAG: Run and selectedParentAnticone\<close>

text \<open>
  The reachability query of GHOSTDAG, \<^verbatim>\<open>g.isInPast(this, other)\<close>, hands its
  arguments to the reachability tree, which is not among the sources at hand; it is a
  parameter \<open>isInPast\<close> that answers or fails with the message of a plain error.
  Its first argument can be a nil pointer (the selected parent of the genesis).
\<close>

type_synonym reachability = "blockNode option \<Rightarrow> blockNode \<Rightarrow> string + bool"

text \<open>
  \<^verbatim>\<open>Less\<close> on block nodes orders them by blue score and then by hash, as
  \<^verbatim>\<open>less\<close> of the block node does; \<^verbatim>\<open>daghash.Less\<close> is the order of the hashes
  as numbers.
\<close>

definition Less :: "blockNode \<Rightarrow> blockNode \<Rightarrow> bool" where
  "Less node other =
     (if blueScore node = blueScore other then hash node < hash other
      else blueScore node < blueScore other)"

text \<open>
  \<^verbatim>\<open>sort.Slice\<close> with \<^verbatim>\<open>Less\<close>: the sorted permutation. (Nodes that \<^verbatim>\<open>Less\<close>
  does not separate have the same blue score and hash.)
\<close>

fun insertLess :: "blockNode \<Rightarrow> blockNode list \<Rightarrow> blockNode list" where
  "insertLess x [] = [x]"
| "insertLess x (y # ys) = (if Less x y then x # y # ys else y # insertLess x ys)"

definition sortSlice :: "blockNode list \<Rightarrow> blockNode list" where
  "sortSlice xs = foldr insertLess xs []"

text \<open>
  Modelled from the spec: \<^verbatim>\<open>BlockNodeSet.Bluest\<close> is not among the sources at hand.
  Spec 4.3, step 1: the selected parent is the parent with the highest blue score, ties
  broken by block hash (less-than). Of an empty set it is nil.
\<close>

fun Bluest :: "blockNode list \<Rightarrow> blockNode option" where
  "Bluest [] = None"
| "Bluest (p # ps) =
     (case Bluest ps of
        None \<Rightarrow> Some p
      | Some b \<Rightarrow>
          if blueScore b < blueScore p \<or> (blueScore p = blueScore b \<and> hash p < hash b)
          then Some p else Some b)"

lemma size_selectedParent: "selectedParent node = Some sp \<Longrightarrow> size sp < size node"
  by (cases node) simp

text \<open>
  Modelled from the spec: \<^verbatim>\<open>blocknode.BlueAnticoneSize(block, context)\<close> is not
  among the sources at hand. Spec 4.3, step 4: the blue anticone size of a block within
  the new node is inherited from the stored blues-anticone-sizes along the selected
  parent chain, and an entry found ends the walk; without any entry it is an error.
\<close>

function BlueAnticoneSize :: "blockNode \<Rightarrow> blockNode \<Rightarrow> error + KType" where
  "BlueAnticoneSize blk context =
     (case map_of (bluesAnticoneSizes context) blk of
        Some blueAnticoneSize \<Rightarrow> Inr blueAnticoneSize
      | None \<Rightarrow>
          (case selectedParent context of
             None \<Rightarrow> Inl (OtherError ''block is not in blue set of the context'')
           | Some sp \<Rightarrow> BlueAnticoneSize blk sp))"
  by pat_completeness auto
termination
  by (relation "measure (\<lambda>(blk, context). size context)") (auto simp: size_selectedParent)

text \<open>
  selectedParentAnticone. The inner loop visits the parents of the node taken from the
  queue; the state is the anticone slice (the anticone set has the same elements), the
  set selectedParentPast and the queue.
\<close>

fun visitParents ::
  "reachability \<Rightarrow> blockNode \<Rightarrow> blockNode list
     \<Rightarrow> blockNode list \<times> blockNode list \<times> blockNode list
     \<Rightarrow> string + (blockNode list \<times> blockNode list \<times> blockNode list)" where
  "visitParents isInPast sp [] st = Inr st"
| "visitParents isInPast sp (parent # rest) (anticoneSlice, selectedParentPast, queue) =
     (if parent \<in> set anticoneSlice \<or> parent \<in> set selectedParentPast
      then visitParents isInPast sp rest (anticoneSlice, selectedParentPast, queue)
      else
        (case isInPast (Some parent) sp of
           Inl msg \<Rightarrow> Inl msg
         | Inr isAncestorOfSelectedParent \<Rightarrow>
             if isAncestorOfSelectedParent
             then visitParents isInPast sp rest (anticoneSlice, parent # selectedParentPast, queue)
             else visitParents isInPast sp rest
                    (anticoneSlice @ [parent], selectedParentPast, queue @ [parent])))"

lemma size_list_sum: "sum_list (map size xs) \<le> size_list size (xs :: blockNode list)"
  by (induction xs) auto

lemma size_parents: "sum_list (map size (parents node)) < size node"
  using size_list_sum [of "parents node"] by (cases node) simp

lemma visitParents_queue:
  "visitParents isInPast sp ps (anticoneSlice, selectedParentPast, queue) = Inr (a', p', q') \<Longrightarrow>
     sum_list (map size q') \<le> sum_list (map size queue) + sum_list (map size ps)"
proof (induction ps arbitrary: anticoneSlice selectedParentPast queue)
  case Nil
  then show ?case by simp
next
  case (Cons parent rest)
  from Cons.prems show ?case
    by (auto split: if_splits sum.splits dest!: Cons.IH)
qed

function processQueue ::
  "reachability \<Rightarrow> blockNode \<Rightarrow> blockNode list \<times> blockNode list \<times> blockNode list
     \<Rightarrow> string + blockNode list" where
  "processQueue isInPast sp (anticoneSlice, selectedParentPast, []) = Inr anticoneSlice"
| "processQueue isInPast sp (anticoneSlice, selectedParentPast, current # queue) =
     (case visitParents isInPast sp (parents current) (anticoneSlice, selectedParentPast, queue) of
        Inl msg \<Rightarrow> Inl msg
      | Inr st \<Rightarrow> processQueue isInPast sp st)"
  by pat_completeness auto
termination
proof (relation "measure (\<lambda>(isInPast, sp, anticoneSlice, selectedParentPast, queue).
                    sum_list (map size queue))", goal_cases)
  case 1
  then show ?case by simp
next
  case (2 isInPast sp anticoneSlice selectedParentPast current queue st)
  obtain a' p' q' where st: "st = (a', p', q')" by (cases st)
  from 2 st visitParents_queue [of isInPast sp "parents current" anticoneSlice selectedParentPast queue a' p' q']
    size_parents [of current]
  show ?case by simp
qed

text \<open>
  The first loop of selectedParentAnticone queues every parent but the selected one.
  The selected parent of the node has been set by Run and is not nil here.
\<close>

fun queueParents :: "blockNode \<Rightarrow> blockNode list \<Rightarrow> blockNode list" where
  "queueParents sp [] = []"
| "queueParents sp (parent # rest) =
     (if parent = sp then queueParents sp rest else parent # queueParents sp rest)"

definition selectedParentAnticone ::
  "reachability \<Rightarrow> blockNode \<Rightarrow> blockNode \<Rightarrow> string + blockNode list" where
  "selectedParentAnticone isInPast node sp =
     (let queue = queueParents sp (parents node)
      in processQueue isInPast sp (queue, [], queue))"

text \<open>
  The map \<^verbatim>\<open>candidateBluesAnticoneSizes\<close> and the counter
  \<^verbatim>\<open>candidateAnticoneSize\<close> of one blue candidate.
\<close>

type_synonym candidateState = "(blockNode \<times> KType) list \<times> KType"

text \<open>
  The loop over the blues of one chain block. It ends with an error, or with the
  state and the flag \<^verbatim>\<open>possiblyBlue\<close>. \<open>newNode\<close> is the new node as Run has
  filled it so far.
\<close>

fun checkBlues ::
  "KType \<Rightarrow> reachability \<Rightarrow> blockNode \<Rightarrow> blockNode \<Rightarrow> blockNode list \<Rightarrow> candidateState
     \<Rightarrow> failure + (candidateState \<times> bool)" where
  "checkBlues K isInPast newNode blueCandidate [] st = Inr (st, True)"
| "checkBlues K isInPast newNode blueCandidate (blk # rest)
       (candidateBluesAnticoneSizes, candidateAnticoneSize) =
     (case isInPast (Some blk) blueCandidate of
        Inl msg \<Rightarrow> Inl (Err (OtherError msg))
      | Inr isAncestorOfBlueCandidate \<Rightarrow>
          if isAncestorOfBlueCandidate
          then checkBlues K isInPast newNode blueCandidate rest
                 (candidateBluesAnticoneSizes, candidateAnticoneSize)
          else
            (case BlueAnticoneSize blk newNode of
               Inl err \<Rightarrow> Inl (Err err)
             | Inr blueAnticoneSize \<Rightarrow>
                 (let sizes = AList.update blk blueAnticoneSize candidateBluesAnticoneSizes;
                      count = candidateAnticoneSize + 1
                  in if count > K then Inr ((sizes, count), False)
                     else if blueAnticoneSize = K then Inr ((sizes, count), False)
                     else if blueAnticoneSize > K
                     then Inl (Err (OtherError ''found blue anticone size larger than k''))
                     else checkBlues K isInPast newNode blueCandidate rest (sizes, count))))"

text \<open>
  The walk along the selected parent chain, from the selected parent of the new node
  on (for the new node itself the reachability query is skipped, see
  \<open>isPossiblyBlue\<close>). Reading the blues of a nil chain block is a panic.
\<close>

function walkChain ::
  "KType \<Rightarrow> reachability \<Rightarrow> blockNode \<Rightarrow> blockNode \<Rightarrow> blockNode option \<Rightarrow> candidateState
     \<Rightarrow> failure + (candidateState \<times> bool)" where
  "walkChain K isInPast newNode blueCandidate chainBlock st =
     (case isInPast chainBlock blueCandidate of
        Inl msg \<Rightarrow> Inl (Err (OtherError msg))
      | Inr isAncestorOfBlueCandidate \<Rightarrow>
          if isAncestorOfBlueCandidate then Inr (st, True)
          else
            (case chainBlock of
               None \<Rightarrow> Inl NilDereference
             | Some cb \<Rightarrow>
                 (case checkBlues K isInPast newNode blueCandidate (blues cb) st of
                    Inl f \<Rightarrow> Inl f
                  | Inr (st', possiblyBlue) \<Rightarrow>
                      if possiblyBlue
                      then walkChain K isInPast newNode blueCandidate (selectedParent cb) st'
                      else Inr (st', False))))"
  by pat_completeness auto
termination
  by (relation "measure (\<lambda>(K, isInPast, newNode, blueCandidate, chainBlock, st).
                   case chainBlock of None \<Rightarrow> 0 | Some cb \<Rightarrow> Suc (size cb))")
    (auto simp: size_selectedParent split: option.splits)

definition isPossiblyBlue ::
  "KType \<Rightarrow> reachability \<Rightarrow> blockNode \<Rightarrow> blockNode \<Rightarrow> failure + (candidateState \<times> bool)" where
  "isPossiblyBlue K isInPast newNode blueCandidate =
     (case checkBlues K isInPast newNode blueCandidate (blues newNode) ([], 0) of
        Inl f \<Rightarrow> Inl f
      | Inr (st, possiblyBlue) \<Rightarrow>
          if possiblyBlue
          then walkChain K isInPast newNode blueCandidate (selectedParent newNode) st
          else Inr (st, False))"

text \<open>Setters of the new node.\<close>

fun SetSelectedParent :: "blockNode \<Rightarrow> blockNode option \<Rightarrow> blockNode" where
  "SetSelectedParent (BlockNode h ps sp bl sizes score uc) sp' = BlockNode h ps sp' bl sizes score uc"

fun SetBlues :: "blockNode \<Rightarrow> blockNode list \<Rightarrow> blockNode" where
  "SetBlues (BlockNode h ps sp bl sizes score uc) bl' = BlockNode h ps sp bl' sizes score uc"

fun SetBluesAnticoneSizes :: "blockNode \<Rightarrow> (blockNode \<times> KType) list \<Rightarrow> blockNode" where
  "SetBluesAnticoneSizes (BlockNode h ps sp bl sizes score uc) sizes' =
     BlockNode h ps sp bl sizes' score uc"

fun SetBlueScore :: "blockNode \<Rightarrow> 64 word \<Rightarrow> blockNode" where
  "SetBlueScore (BlockNode h ps sp bl sizes score uc) score' = BlockNode h ps sp bl sizes score' uc"

text \<open>
  What Run does for a candidate that passed: it appends the candidate to the blues,
  records its anticone size, and raises the size of every blue in its anticone by one.
\<close>

definition addBlue :: "blockNode \<Rightarrow> blockNode \<Rightarrow> candidateState \<Rightarrow> blockNode" where
  "addBlue newNode blueCandidate st =
     (case st of (candidateBluesAnticoneSizes, candidateAnticoneSize) \<Rightarrow>
        SetBluesAnticoneSizes (SetBlues newNode (blues newNode @ [blueCandidate]))
          (fold (\<lambda>(blue, blueAnticoneSize). AList.update blue (blueAnticoneSize + 1))
             candidateBluesAnticoneSizes
             (AList.update blueCandidate candidateAnticoneSize (bluesAnticoneSizes newNode))))"

text \<open>The loop of Run over the sorted anticone of the selected parent.\<close>

fun colorCandidates ::
  "KType \<Rightarrow> reachability \<Rightarrow> blockNode list \<Rightarrow> blockNode \<Rightarrow> failure + blockNode" where
  "colorCandidates K isInPast [] newNode = Inr newNode"
| "colorCandidates K isInPast (blueCandidate # rest) newNode =
     (case isPossiblyBlue K isInPast newNode blueCandidate of
        Inl f \<Rightarrow> Inl f
      | Inr (st, possiblyBlue) \<Rightarrow>
          if possiblyBlue then
            (let newNode' = addBlue newNode blueCandidate st
             in if (of_nat (length (blues newNode')) :: KType) = K + 1 then Inr newNode'
                else colorCandidates K isInPast rest newNode')
          else colorCandidates K isInPast rest newNode)"

text \<open>
  Run. It returns the coloured node and the sorted anticone of its selected parent.
  For a node without parents \<^verbatim>\<open>Bluest\<close> is nil, the anticone is empty and the loop
  is not entered, and reading the blue score of the nil selected parent is a panic.
\<close>

definition Run :: "KType \<Rightarrow> reachability \<Rightarrow> blockNode \<Rightarrow> failure + (blockNode \<times> blockNode list)" where
  "Run K isInPast newNode =
     (case Bluest (parents newNode) of
        None \<Rightarrow> Inl NilDereference
      | Some sp \<Rightarrow>
          (let node1 = SetBlues (SetBluesAnticoneSizes (SetSelectedParent newNode (Some sp)) [(sp, 0)]) [sp]
           in case selectedParentAnticone isInPast node1 sp of
                Inl msg \<Rightarrow> Inl (Err (OtherError msg))
              | Inr anticone \<Rightarrow>
                  (let sortedAnticone = sortSlice anticone
                   in case colorCandidates K isInPast sortedAnticone node1 of
                        Inl f \<Rightarrow> Inl f
                      | Inr node2 \<Rightarrow>
                          Inr (SetBlueScore node2 (blueScore sp + of_nat (length (blues node2))),
                               sortedAnticone))))"

text \<open>
  The invariant of the blue score: the node has a selected parent, and its blue score
  is that of the selected parent plus the number of its blues (in 64-bit arithmetic).
\<close>

definition blueScoreInvariant :: "blockNode \<Rightarrow> bool" where
  "blueScoreInvariant node =
     (case selectedParent node of
        None \<Rightarrow> False
      | Some sp \<Rightarrow> blueScore node = blueScore sp + of_nat (length (blues node)))"

section \<open>UTXO diffs: withDiff and diffFrom\<close>

text \<open>
  Modelled from the spec: the functions withDiff and diffFrom that
  \<^verbatim>\<open>utxoDiff.WithDiff\<close> and \<^verbatim>\<open>utxoDiff.DiffFrom\<close> call, and the methods of
  utxoCollection, are not among the sources at hand. Spec 3 (UTXODiff):
  withDiff(d, e) has toAdd = (d.toAdd minus e.toRemove) united with (e.toAdd minus
  d.toRemove) and toRemove = (d.toRemove minus e.toAdd) united with (e.toRemove minus
  d.toAdd), and fails if the same outpoint with matching blue score appears in both
  toAdd collections or in both toRemove collections; diffFrom(d, e) yields the diff
  that, composed with d, produces e. An entry is taken out of a collection by an entry
  of the same outpoint and blue score, as \<^verbatim>\<open>containsWithBlueScore\<close> decides in
  addEntry and removeEntry of utxo_diff.go. The spec gives diffFrom by what it yields
  only; the model is the difference that mirrors the formula of withDiff, and fails
  when an outpoint with matching blue score is added by one diff and removed by the
  other.
\<close>

definition containsWithBlueScore :: "utxoCollection \<Rightarrow> outpoint \<Rightarrow> 64 word \<Rightarrow> bool" where
  "containsWithBlueScore collection outpoint score =
     (case collection outpoint of
        None \<Rightarrow> False
      | Some entry \<Rightarrow> BlockBlueScore entry = score)"

definition collectionMinus :: "utxoCollection \<Rightarrow> utxoCollection \<Rightarrow> utxoCollection" where
  "collectionMinus c1 c2 =
     (\<lambda>outpoint. case c1 outpoint of
        None \<Rightarrow> None
      | Some entry \<Rightarrow>
          if containsWithBlueScore c2 outpoint (BlockBlueScore entry) then None else Some entry)"

definition collectionMeet :: "utxoCollection \<Rightarrow> utxoCollection \<Rightarrow> utxoCollection" where
  "collectionMeet c1 c2 =
     (\<lambda>outpoint. case c1 outpoint of
        None \<Rightarrow> None
      | Some entry \<Rightarrow>
          if containsWithBlueScore c2 outpoint (BlockBlueScore entry) then Some entry else None)"

definition withDiff :: "utxoDiff \<Rightarrow> utxoDiff \<Rightarrow> error + utxoDiff" where
  "withDiff d e =
     (if collectionMeet (toAdd d) (toAdd e) \<noteq> Map.empty
         \<or> collectionMeet (toRemove d) (toRemove e) \<noteq> Map.empty
      then Inl (OtherError ''withDiff: outpoint both in this and in other'')
      else Inr \<lparr>toAdd = collectionMinus (toAdd d) (toRemove e) ++ collectionMinus (toAdd e) (toRemove d),
                toRemove = collectionMinus (toRemove d) (toAdd e) ++ collectionMinus (toRemove e) (toAdd d)\<rparr>)"

definition diffFrom :: "utxoDiff \<Rightarrow> utxoDiff \<Rightarrow> error + utxoDiff" where
  "diffFrom d e =
     (if collectionMeet (toAdd d) (toRemove e) \<noteq> Map.empty
         \<or> collectionMeet (toRemove d) (toAdd e) \<noteq> Map.empty
      then Inl (OtherError ''diffFrom: outpoint added in one and removed in the other'')
      else Inr \<lparr>toAdd = collectionMinus (toAdd e) (toAdd d) ++ collectionMinus (toRemove d) (toRemove e),
                toRemove = collectionMinus (toRemove e) (toRemove d) ++ collectionMinus (toAdd d) (toAdd e)\<rparr>)"

text \<open>
  The rules for a pair of diffs d and e of one base: d holds no outpoint in both of its
  collections with the same blue score; no outpoint is added by one of the two diffs
  and removed by the other; and an outpoint that both add, or both remove, has the
  same entry in both.
\<close>

definition diffRules :: "utxoDiff \<Rightarrow> utxoDiff \<Rightarrow> bool" where
  "diffRules d e =
     (collectionMeet (toAdd d) (toRemove d) = Map.empty
      \<and> dom (toAdd d) \<inter> dom (toRemove e) = {}
      \<and> dom (toRemove d) \<inter> dom (toAdd e) = {}
      \<and> (\<forall>outpoint\<in>dom (toAdd d) \<inter> dom (toAdd e). toAdd d outpoint = toAdd e outpoint)
      \<and> (\<forall>outpoint\<in>dom (toRemove d) \<inter> dom (toRemove e).
            toRemove d outpoint = toRemove e outpoint))"

section \<open>Example inputs\<close>

text \<open>
  A scan over two blue blocks: the selected parent holds a coinbase and two
  transactions that spend the same outpoint, the other blue block holds a coinbase.
\<close>

definition ex_outpoint :: outpoint where
  "ex_outpoint = \<lparr>TxID = 7, Index = 0\<rparr>"

definition ex_entry :: UTXOEntry where
  "ex_entry = \<lparr>Amount = 50, ScriptPublicKey = [], BlockBlueScore = 1, IsCoinbase = False\<rparr>"

definition ex_coinbase :: "txID \<Rightarrow> utilTx" where
  "ex_coinbase i = \<lparr>ID = i, TxIn = [], TxOut = [\<lparr>Value = 1, ScriptPubKey = []\<rparr>], IsCoinBase = True\<rparr>"

definition ex_spend :: "txID \<Rightarrow> utilTx" where
  "ex_spend i = \<lparr>ID = i, TxIn = [\<lparr>PreviousOutpoint = ex_outpoint\<rparr>],
                 TxOut = [\<lparr>Value = 50, ScriptPubKey = []\<rparr>], IsCoinBase = False\<rparr>"

definition ex_blueBlocks :: "utilBlock list" where
  "ex_blueBlocks =
     [\<lparr>Hash = 100, Timestamp = 0, ParentHashes = [], Transactions = [ex_coinbase 10, ex_spend 11, ex_spend 12]\<rparr>,
      \<lparr>Hash = 101, Timestamp = 0, ParentHashes = [], Transactions = [ex_coinbase 20]\<rparr>]"

definition ex_node :: blockNode where
  "ex_node = BlockNode 102 [] None [] [] 5 0"

text \<open>
  A small DAG: a genesis, two children A and B of it, and new blocks on top of A. The
  reachability query of the example knows the genesis as an ancestor of every block.
  In the example DAG the stores answer with an empty past and no blue blocks, every
  check that is not modelled passes, and the multiset of every block finalizes to 0.
\<close>

definition ex_genesis :: blockNode where
  "ex_genesis = BlockNode 1 [] None [] [] 0 0"

definition ex_A :: blockNode where
  "ex_A = BlockNode 2 [ex_genesis] (Some ex_genesis) [ex_genesis] [(ex_genesis, 0)] 1 0"

definition ex_B :: blockNode where
  "ex_B = BlockNode 3 [ex_genesis] (Some ex_genesis) [ex_genesis] [(ex_genesis, 0)] 1 0"

definition ex_new :: "hash \<Rightarrow> blockNode" where
  "ex_new commitment = BlockNode 4 [ex_A] (Some ex_A) [ex_A] [(ex_A, 0)] 2 commitment"

definition ex_block :: utilBlock where
  "ex_block = \<lparr>Hash = 4, Timestamp = 0, ParentHashes = [2], Transactions = []\<rparr>"

definition ex_env :: "(nat, unit, unit) collaborators" where
  "ex_env =
     \<lparr>IsReachabilityTreeAncestorOf = (\<lambda>node other. Inr (node = Some ex_genesis)),
      isSynced = True,
      warnUnknownRuleActivations = (\<lambda>node. None),
      warnUnknownVersions = (\<lambda>node. None),
      validateGasLimit = (\<lambda>block. None),
      genesisPastUTXO = Inr Map.empty,
      restorePastUTXO = (\<lambda>node. Inr Map.empty),
      fetchBlueBlocks = (\<lambda>node. Inr []),
      validateAcceptedIDMerkleRoot = (\<lambda>node data. None),
      checkConnectToPastUTXO = (\<lambda>node past txs fastAdd. Inr []),
      calcMultiset = (\<lambda>node data past. Inr 0),
      Finalize = (\<lambda>multiset. multiset),
      ValidateCoinbaseTransaction = (\<lambda>node block data. None),
      applyDAGChanges = (\<lambda>dag node past multiset anticone.
         Inr (NewUTXODiff, \<lparr>RemovedChainBlockHashes = [], AddedChainBlockHashes = [hash node]\<rparr>, dag)),
      saveChangesFromBlock = (\<lambda>dag block diff data fee. (None, dag)),
      NewTx = None,
      FlushToDBError = None,
      Commit = None\<rparr>"

definition ex_dag :: "blockNode \<Rightarrow> (unit, unit) blockDAG" where
  "ex_dag finalityPoint =
     \<lparr>nodeStatus = (\<lambda>node. {StatusDataStored}),
      dirtyEntries = {},
      blockCount = 3,
      lastFinalityPoint = Some finalityPoint,
      inMemory = (),
      dbBlockIndex = (\<lambda>node. Some {StatusDataStored}),
      dbBuckets = ()\<rparr>"

text \<open>
  Orphan pools of 100 orphans with hashes and timestamps 0 to 99. In \<open>ex_pool\<close>
  the expiration of orphan 0 is a parameter and \<open>newestOrphan\<close> is nil; in
  \<open>ex_pool2\<close> orphan 99 expires first and \<open>newestOrphan\<close> points to it.
\<close>

definition ex_orphan :: "nat \<Rightarrow> int \<Rightarrow> orphanBlock" where
  "ex_orphan i expires =
     \<lparr>block = \<lparr>Hash = i, Timestamp = int i, ParentHashes = [], Transactions = []\<rparr>,
      expiration = expires\<rparr>"


definition ex_newOrphan :: utilBlock where
  "ex_newOrphan = \<lparr>Hash = 200, Timestamp = 50, ParentHashes = [], Transactions = []\<rparr>"

definition ex_pool2 :: orphanPool where
  "ex_pool2 =
     \<lparr>orphans = map (\<lambda>i. (i, ex_orphan i (if i = 99 then 400 else 1000))) [0..<100],
      prevOrphans = (\<lambda>parentHash. []),
      newestOrphan = Some (ex_orphan 99 400)\<rparr>"

definition ex_newOrphan2 :: utilBlock where
  "ex_newOrphan2 = \<lparr>Hash = 201, Timestamp = 60, ParentHashes = [], Transactions = []\<rparr>"

text \<open>
  A reachability query for the example DAG: a node is in the past of another when a
  path of parent edges leads to it. On top of A and B stands a new, uncoloured node.
\<close>

fun isAncestorOf :: "blockNode \<Rightarrow> blockNode \<Rightarrow> bool" where
  "isAncestorOf a (BlockNode h ps sp bl sizes score uc) =
     list_ex (\<lambda>p. p = a \<or> isAncestorOf a p) ps"

definition ex_isInPast :: reachability where
  "ex_isInPast this other =
     (case this of
        None \<Rightarrow> Inl ''no reachability data''
      | Some node \<Rightarrow> Inr (isAncestorOf node other))"

definition ex_merge :: blockNode where
  "ex_merge = BlockNode 5 [ex_A, ex_B] None [] [] 0 0"

text \<open>Two diffs of one base: d adds outpoint 1 and removes outpoint 2, e adds outpoints 1 and 3.\<close>

definition ex_out :: "txID \<Rightarrow> outpoint" where
  "ex_out i = \<lparr>TxID = i, Index = 0\<rparr>"

definition ex_d :: utxoDiff where
  "ex_d = \<lparr>toAdd = [ex_out 1 \<mapsto> ex_entry], toRemove = [ex_out 2 \<mapsto> ex_entry]\<rparr>"

definition ex_e :: utxoDiff where
  "ex_e = \<lparr>toAdd = [ex_out 1 \<mapsto> ex_entry, ex_out 3 \<mapsto> ex_entry], toRemove = Map.empty\<rparr>"

section \<open>Properties of OnNewBlock\<close>

lemma length_fill_ids: "length (fill_ids i ts ids) = length ids"
  by (induction i ts ids rule: fill_ids.induct) simp_all

lemma fill_ids_prefix:
  "i + length ts \<le> length ids \<Longrightarrow>
     fill_ids i ts ids = take i ids @ map Some ts @ drop (i + length ts) ids"
proof (induction i ts ids rule: fill_ids.induct)
  case (1 i ids)
  then show ?case by simp
next
  case (2 i t ts ids)
  then have "i < length ids" by simp
  then have "take (Suc i) (ids[i := Some t]) = take i ids @ [Some t]"
    by (simp add: take_Suc_conv_app_nth)
  with 2 show ?case by simp
qed

lemma broadcast_slice:
  "take (length acc) (fill_ids 0 acc (make_slice (length acc + length rb)))
     @ go_copy (drop (length acc) (fill_ids 0 acc (make_slice (length acc + length rb))))
         (fill_ids 0 acc (make_slice (length acc + length rb)))
   = map Some acc @ take (length rb) (map Some acc @ replicate (length rb) None)"
proof -
  have f: "fill_ids 0 acc (make_slice (length acc + length rb))
             = map Some acc @ replicate (length rb) None"
    using fill_ids_prefix [of 0 acc "make_slice (length acc + length rb)"]
    by (simp add: make_slice_def)
  show ?thesis
    unfolding f by (simp add: go_copy_def Let_def)
qed

text \<open>
  C10. Outside IBD, with HandleNewBlock successful, OnNewBlock panics at the slice
  expression exactly when the accepted and the rebroadcast IDs together are fewer than
  MaxInvPerTxInvMsg; it completes exactly when they are at least that many.
\<close>

theorem OnNewBlock_panics_iff:
  "(OnNewBlock MaxInv (Inr acc) 0 sr rb = PanicSliceBounds)
     = (length acc + length (if sr then rb else []) < MaxInv)"
  by (simp add: OnNewBlock_def Let_def length_fill_ids go_copy_def make_slice_def)

text \<open>
  C8. The inventory handed to Broadcast is not the accepted IDs followed by the
  rebroadcast IDs: the tail of the slice is a copy of its own head. With one accepted
  transaction 1 and one rebroadcast ID 2, Broadcast receives [1, 1] when
  MaxInvPerTxInvMsg is 2, and for no value of MaxInvPerTxInvMsg does it receive [1, 2].
\<close>

theorem OnNewBlock_rebroadcast_lost:
  "OnNewBlock 2 (Inr [1]) 0 True [Some 2] = ReturnBroadcast [Some 1, Some 1]
   \<and> (\<forall>MaxInv. OnNewBlock MaxInv (Inr [1]) 0 True [Some 2]
          \<noteq> ReturnBroadcast [Some 1, Some 2])"
proof -
  have "take MaxInv [Some (1::nat), Some 1] \<noteq> [Some 1, Some 2]" for MaxInv
    by (cases MaxInv) (simp_all add: take_Cons')
  then show ?thesis
    by (simp add: OnNewBlock_def Let_def go_copy_def make_slice_def)
qed

section \<open>Properties of checkIncomingConnections\<close>

text \<open>
  C9. With three incoming connections and maxIncoming = 2 every connection is
  disconnected and none remains, although disconnecting one would have been enough.
\<close>

theorem checkIncomingConnections_disconnects_all:
  "checkIncomingConnections 2 [10, 20, 30 :: nat] = ([10, 20, 30], [])"
  by (simp add: checkIncomingConnections_def)

section \<open>Properties of applyBlueBlocks\<close>

lemma applyTransactions_append:
  "applyTransactions node sp (ts1 @ ts2) u =
     (case applyTransactions node sp ts1 u of
        Inl err \<Rightarrow> Inl err
      | Inr (u1, a1) \<Rightarrow>
          (case applyTransactions node sp ts2 u1 of
             Inl err \<Rightarrow> Inl err
           | Inr (u2, a2) \<Rightarrow> Inr (u2, a1 @ a2)))"
  by (induction ts1 arbitrary: u) (auto split: sum.splits prod.splits)

lemma applyTransactions_length:
  "applyTransactions node sp ts u = Inr (u', accs) \<Longrightarrow> length accs = length ts"
  by (induction ts arbitrary: u u' accs) (auto split: sum.splits prod.splits if_splits)

lemma applyBlocks_append:
  "applyBlocks node i (bs1 @ bs2) u =
     (case applyBlocks node i bs1 u of
        Inl err \<Rightarrow> Inl err
      | Inr (u1, d1) \<Rightarrow>
          (case applyBlocks node (i + length bs1) bs2 u1 of
             Inl err \<Rightarrow> Inl err
           | Inr (u2, d2) \<Rightarrow> Inr (u2, d1 @ d2)))"
  by (induction bs1 arbitrary: u i) (auto split: sum.splits prod.splits)

lemma applyBlocks_length:
  "applyBlocks node i bs u = Inr (u', data) \<Longrightarrow> length data = length bs"
  by (induction bs arbitrary: u u' data i) (auto split: sum.splits prod.splits if_splits)

text \<open>
  C1. When applyBlueBlocks succeeds, the acceptance entry of transaction j of blue
  block i records that transaction, and records it as accepted exactly when every
  outpoint its inputs refer to is in the accumulating past UTXO at the moment it is
  processed (the UTXO that the same scan yields on the blue blocks before i followed
  by the first j transactions of block i) and it is not a coinbase of a blue block
  other than the selected parent (index 0). No branch of the scan raises a rule error
  for a missing outpoint.
\<close>

theorem applyBlueBlocks_accepted_iff:
  assumes run: "applyBlueBlocks node selectedParentPastUTXO blueBlocks = Inr (past, data)"
    and i: "i < length blueBlocks"
    and j: "j < length (Transactions (blueBlocks ! i))"
  shows "\<exists>u d. applyBlueBlocks node selectedParentPastUTXO
                 (take i blueBlocks @
                  [(blueBlocks ! i)\<lparr>Transactions := take j (Transactions (blueBlocks ! i))\<rparr>])
               = Inr (u, d)
           \<and> Tx (TxAcceptanceData (data ! i) ! j) = Transactions (blueBlocks ! i) ! j
           \<and> IsAccepted (TxAcceptanceData (data ! i) ! j)
               = (containsInputs u (Transactions (blueBlocks ! i) ! j)
                  \<and> \<not> (IsCoinBase (Transactions (blueBlocks ! i) ! j) \<and> i \<noteq> 0))"
proof -
  define b where "b = blueBlocks ! i"
  define t where "t = Transactions b ! j"
  define bs1 where "bs1 = take i blueBlocks"
  define ts1 where "ts1 = take j (Transactions b)"
  have bs: "blueBlocks = bs1 @ b # drop (Suc i) blueBlocks"
    using i by (simp add: bs1_def b_def id_take_nth_drop [symmetric])
  have ts: "Transactions b = ts1 @ t # drop (Suc j) (Transactions b)"
    using j by (simp add: ts1_def t_def b_def id_take_nth_drop [symmetric])
  have len1: "length bs1 = i" using i by (simp add: bs1_def)
  have lent: "length ts1 = j" using j by (simp add: ts1_def b_def)
  from run obtain u1 d1 u2 accs u3 d3 where
    r1: "applyBlocks node 0 bs1 selectedParentPastUTXO = Inr (u1, d1)"
    and r2: "applyTransactions node (i = 0) (Transactions b) u1 = Inr (u2, accs)"
    and r3: "data = d1 @ \<lparr>BlockHash = Hash b, TxAcceptanceData = accs\<rparr> # d3"
    unfolding applyBlueBlocks_def
    by (subst (asm) bs) (auto simp: applyBlocks_append len1 split: sum.splits prod.splits)
  have ld1: "length d1 = i" using applyBlocks_length [OF r1] len1 by simp
  from r2 obtain u a1 acc u5 a2 where
    q1: "applyTransactions node (i = 0) ts1 u1 = Inr (u, a1)"
    and q2: "applyTransactions node (i = 0) [t] u = Inr (u5, [acc])"
    and q3: "accs = a1 @ acc # a2"
    apply (subst (asm) ts)
    apply (subst (asm) applyTransactions_append)
    apply (auto split: sum.splits prod.splits if_splits)
    done
  have la1: "length a1 = j" using applyTransactions_length [OF q1] lent by simp
  have acc: "Tx acc = t" "IsAccepted acc = (containsInputs u t \<and> \<not> (IsCoinBase t \<and> i \<noteq> 0))"
    using q2 by (auto simp: AddTx_def split: if_splits)
  have dat: "TxAcceptanceData (data ! i) ! j = acc"
    using r3 q3 ld1 la1 by (simp add: nth_append)
  have trunc: "applyBlueBlocks node selectedParentPastUTXO (bs1 @ [b\<lparr>Transactions := ts1\<rparr>])
                 = Inr (u, d1 @ [\<lparr>BlockHash = Hash b, TxAcceptanceData = a1\<rparr>])"
    unfolding applyBlueBlocks_def by (simp add: applyBlocks_append r1 len1 q1)
  show ?thesis
    using trunc acc dat unfolding bs1_def ts1_def t_def b_def by blast
qed

lemma ex_run:
  "\<exists>p d. applyBlueBlocks ex_node [ex_outpoint \<mapsto> ex_entry] ex_blueBlocks = Inr (p, d)
      \<and> map (\<lambda>b. map IsAccepted (TxAcceptanceData b)) d = [[True, True, False], [False]]"
  by (simp add: applyBlueBlocks_def ex_blueBlocks_def ex_coinbase_def ex_spend_def AddTx_def
      containsInputs_def ex_outpoint_def)

text \<open>
  The example scan succeeds; its acceptance flags are [True, True, False] for the
  selected parent (the second spender of the outpoint is left unaccepted) and [False]
  for the coinbase of the other blue block, as the theorem says at i = 1, j = 0.
\<close>

theorem applyBlueBlocks_accepted_iff_witness:
  "\<exists>p d u d'. applyBlueBlocks ex_node [ex_outpoint \<mapsto> ex_entry] ex_blueBlocks = Inr (p, d)
     \<and> (1::nat) < length ex_blueBlocks \<and> (0::nat) < length (Transactions (ex_blueBlocks ! 1))
     \<and> applyBlueBlocks ex_node [ex_outpoint \<mapsto> ex_entry]
          (take 1 ex_blueBlocks @ [(ex_blueBlocks ! 1)\<lparr>Transactions := take 0 (Transactions (ex_blueBlocks ! 1))\<rparr>])
          = Inr (u, d')
     \<and> IsAccepted (TxAcceptanceData (d ! 1) ! 0)
          = (containsInputs u (Transactions (ex_blueBlocks ! 1) ! 0)
             \<and> \<not> (IsCoinBase (Transactions (ex_blueBlocks ! 1) ! 0) \<and> (1::nat) \<noteq> 0))
     \<and> map (\<lambda>b. map IsAccepted (TxAcceptanceData b)) d = [[True, True, False], [False]]"
proof -
  from ex_run obtain p d where
    run: "applyBlueBlocks ex_node [ex_outpoint \<mapsto> ex_entry] ex_blueBlocks = Inr (p, d)"
    and acc: "map (\<lambda>b. map IsAccepted (TxAcceptanceData b)) d = [[True, True, False], [False]]"
    by auto
  have i: "(1::nat) < length ex_blueBlocks" by (simp add: ex_blueBlocks_def)
  have j: "(0::nat) < length (Transactions (ex_blueBlocks ! 1))" by (simp add: ex_blueBlocks_def)
  from applyBlueBlocks_accepted_iff [OF run i j] obtain u d' where
    tr: "applyBlueBlocks ex_node [ex_outpoint \<mapsto> ex_entry]
          (take 1 ex_blueBlocks @ [(ex_blueBlocks ! 1)\<lparr>Transactions := take 0 (Transactions (ex_blueBlocks ! 1))\<rparr>])
          = Inr (u, d')"
    and ia: "IsAccepted (TxAcceptanceData (d ! 1) ! 0)
          = (containsInputs u (Transactions (ex_blueBlocks ! 1) ! 0)
             \<and> \<not> (IsCoinBase (Transactions (ex_blueBlocks ! 1) ! 0) \<and> (1::nat) \<noteq> 0))"
    by auto
  show ?thesis
    apply (rule exI [of _ p])
    apply (rule exI [of _ d])
    apply (rule exI [of _ u])
    apply (rule exI [of _ d'])
    apply (intro conjI)
         apply (rule run)
        apply (rule i)
       apply (rule j)
      apply (rule tr)
     apply (rule ia)
    apply (rule acc)
    done
qed

section \<open>Properties of the finality check\<close>



section \<open>Properties of the UTXO commitment check\<close>

lemma connectBlock_bad_commitment:
  assumes "isSynced env \<Longrightarrow>
             warnUnknownRuleActivations env node = None \<and> warnUnknownVersions env node = None"
    and "checkFinalityViolation (IsReachabilityTreeAncestorOf env) (lastFinalityPoint dag) node = None"
    and "validateGasLimit env blk = None"
    and "pastUTXO env node = Inr (past, selectedParentPastUTXO, txsAcceptanceData)"
    and "validateAcceptedIDMerkleRoot env node txsAcceptanceData = None"
    and "checkConnectToPastUTXO env node past (Transactions blk) fastAdd = Inr feeData"
    and "calcMultiset env node txsAcceptanceData selectedParentPastUTXO = Inr multiset"
    and "Finalize env multiset \<noteq> utxoCommitment node"
  shows "connectBlock env dag node blk anticone fastAdd
           = (Inl (Err (RuleError ErrBadUTXOCommitment)), dag)"
proof -
  have v: "verifyAndBuildUTXO env node (Transactions blk) fastAdd
             = Inl (RuleError ErrBadUTXOCommitment)"
    using assms(4-8) by (simp add: verifyAndBuildUTXO_def)
  show ?thesis
    using assms(1-3) v by (cases "isSynced env") (simp_all add: connectBlock_def)
qed

text \<open>
  C6. When the checks that precede the commitment comparison pass, the finalized
  multiset hash differs from the UTXO commitment of the node, and the database
  transaction of addBlock succeeds, then addBlock fails with the BadUTXOCommitment
  rule error, the node gains the validate-failed status in the store and in the block
  index of the database, and nothing else changes: not the rest of the state in
  memory, not any other bucket of the database, not the block count, not the last
  finality point, and no block index row of a node that was not waiting to be flushed.
\<close>

theorem addBlock_bad_commitment:
  assumes "isSynced env \<Longrightarrow>
             warnUnknownRuleActivations env node = None \<and> warnUnknownVersions env node = None"
    and "checkFinalityViolation (IsReachabilityTreeAncestorOf env) (lastFinalityPoint dag) node = None"
    and "validateGasLimit env blk = None"
    and "pastUTXO env node = Inr (past, selectedParentPastUTXO, txsAcceptanceData)"
    and "validateAcceptedIDMerkleRoot env node txsAcceptanceData = None"
    and "checkConnectToPastUTXO env node past (Transactions blk)
           (BFFastAdd \<in> flags \<or> KnownValid (nodeStatus dag node)) = Inr feeData"
    and "calcMultiset env node txsAcceptanceData selectedParentPastUTXO = Inr multiset"
    and "Finalize env multiset \<noteq> utxoCommitment node"
    and "NewTx env = None" and "FlushToDBError env = None" and "Commit env = None"
  shows "\<exists>dag'. addBlock env dag node blk anticone flags
                  = (Inl (Err (RuleError ErrBadUTXOCommitment)), dag')
           \<and> nodeStatus dag' node = nodeStatus dag node \<union> {StatusValidateFailed}
           \<and> dbBlockIndex dag' node = Some (nodeStatus dag node \<union> {StatusValidateFailed})
           \<and> (\<forall>other. other \<noteq> node \<longrightarrow> nodeStatus dag' other = nodeStatus dag other)
           \<and> (\<forall>other. other \<noteq> node \<and> other \<notin> dirtyEntries dag
                 \<longrightarrow> dbBlockIndex dag' other = dbBlockIndex dag other)
           \<and> dbBuckets dag' = dbBuckets dag
           \<and> inMemory dag' = inMemory dag
           \<and> blockCount dag' = blockCount dag
           \<and> lastFinalityPoint dag' = lastFinalityPoint dag"
proof -
  have c: "connectBlock env dag node blk anticone
             (BFFastAdd \<in> flags \<or> KnownValid (nodeStatus dag node))
           = (Inl (Err (RuleError ErrBadUTXOCommitment)), dag)"
    using assms(1-8) by (rule connectBlock_bad_commitment)
  show ?thesis
    by (simp add: addBlock_def c assms(9-11) SetStatusFlags_def FlushToDB_def Let_def)
qed

text \<open>
  In the example DAG a block whose header commits to 1 while its multiset finalizes to
  0 is refused; its status becomes data-stored and validate-failed, in memory and in
  the block index.
\<close>

theorem addBlock_bad_commitment_witness:
  "\<exists>dag'. addBlock ex_env (ex_dag ex_genesis) (ex_new 1) ex_block [] {}
            = (Inl (Err (RuleError ErrBadUTXOCommitment)), dag')
      \<and> nodeStatus dag' (ex_new 1) = {StatusDataStored, StatusValidateFailed}
      \<and> dbBlockIndex dag' (ex_new 1) = Some {StatusDataStored, StatusValidateFailed}
      \<and> dbBuckets dag' = dbBuckets (ex_dag ex_genesis)
      \<and> inMemory dag' = inMemory (ex_dag ex_genesis)
      \<and> blockCount dag' = 3"
proof -
  have h1: "isSynced ex_env \<Longrightarrow>
      warnUnknownRuleActivations ex_env (ex_new 1) = None \<and> warnUnknownVersions ex_env (ex_new 1) = None"
    by (simp add: ex_env_def)
  have h2: "checkFinalityViolation (IsReachabilityTreeAncestorOf ex_env)
      (lastFinalityPoint (ex_dag ex_genesis)) (ex_new 1) = None"
    by (simp add: checkFinalityViolation_def isInSelectedParentChainOf_def IsGenesis_def
        ex_env_def ex_dag_def ex_new_def ex_A_def ex_genesis_def)
  have h3: "validateGasLimit ex_env ex_block = None"
    by (simp add: ex_env_def)
  have h4: "pastUTXO ex_env (ex_new 1) = Inr (Map.empty, Some Map.empty, [])"
    by (simp add: pastUTXO_def applyBlueBlocks_def IsGenesis_def ex_env_def ex_new_def)
  have h5: "validateAcceptedIDMerkleRoot ex_env (ex_new 1) [] = None"
    by (simp add: ex_env_def)
  have h6: "checkConnectToPastUTXO ex_env (ex_new 1) Map.empty (Transactions ex_block)
      (BFFastAdd \<in> {} \<or> KnownValid (nodeStatus (ex_dag ex_genesis) (ex_new 1))) = Inr []"
    by (simp add: ex_env_def)
  have h7: "calcMultiset ex_env (ex_new 1) [] (Some Map.empty) = Inr 0"
    by (simp add: ex_env_def)
  have h8: "Finalize ex_env 0 \<noteq> utxoCommitment (ex_new 1)"
    by (simp add: ex_env_def ex_new_def)
  have h9: "NewTx ex_env = None" "FlushToDBError ex_env = None" "Commit ex_env = None"
    by (simp_all add: ex_env_def)
  from addBlock_bad_commitment [OF h1 h2 h3 h4 h5 h6 h7 h8 h9, of "[]"]
  obtain dag' where
    "addBlock ex_env (ex_dag ex_genesis) (ex_new 1) ex_block [] {}
       = (Inl (Err (RuleError ErrBadUTXOCommitment)), dag')"
    "nodeStatus dag' (ex_new 1) = nodeStatus (ex_dag ex_genesis) (ex_new 1) \<union> {StatusValidateFailed}"
    "dbBlockIndex dag' (ex_new 1)
       = Some (nodeStatus (ex_dag ex_genesis) (ex_new 1) \<union> {StatusValidateFailed})"
    "dbBuckets dag' = dbBuckets (ex_dag ex_genesis)"
    "inMemory dag' = inMemory (ex_dag ex_genesis)"
    "blockCount dag' = blockCount (ex_dag ex_genesis)"
    by blast
  then show ?thesis
    by (intro exI [of _ dag']) (simp add: ex_dag_def insert_commute)
qed

section \<open>Properties of the orphan pool\<close>






text \<open>
  The pointer newestOrphan outlives the orphan it points to: when that orphan expires,
  the first loop removes it from the map and leaves the pointer. The next call at
  capacity then removes nothing, and the pool holds 101 orphans.
\<close>

lemma addOrphanBlock_exceeds_after_expiry:
  "(case addOrphanBlock 500 ex_pool2 ex_newOrphan of
      Inl f \<Rightarrow> False
    | Inr dag1 \<Rightarrow>
        length (orphans dag1) = 100
        \<and> (case addOrphanBlock 500 dag1 ex_newOrphan2 of
              Inl f \<Rightarrow> False
            | Inr dag2 \<Rightarrow> length (orphans dag2) = 101))"
  by code_simp


section \<open>Properties of GHOSTDAG\<close>

lemma Bluest_None_iff: "Bluest ps = None \<longleftrightarrow> ps = []"
  by (induction ps) (auto split: option.splits)

lemma SetSelectedParent_sel:
  "selectedParent (SetSelectedParent node sp) = sp"
  "blues (SetSelectedParent node sp) = blues node"
  "parents (SetSelectedParent node sp) = parents node"
  by (cases node; simp)+

lemma SetBlues_sel:
  "selectedParent (SetBlues node bl) = selectedParent node"
  "blues (SetBlues node bl) = bl"
  "bluesAnticoneSizes (SetBlues node bl) = bluesAnticoneSizes node"
  by (cases node; simp)+

lemma SetBluesAnticoneSizes_sel:
  "selectedParent (SetBluesAnticoneSizes node sizes) = selectedParent node"
  "blues (SetBluesAnticoneSizes node sizes) = blues node"
  "bluesAnticoneSizes (SetBluesAnticoneSizes node sizes) = sizes"
  by (cases node; simp)+

lemma SetBlueScore_sel:
  "selectedParent (SetBlueScore node score) = selectedParent node"
  "blues (SetBlueScore node score) = blues node"
  "blueScore (SetBlueScore node score) = score"
  by (cases node; simp)+

lemmas setter_sel = SetSelectedParent_sel SetBlues_sel SetBluesAnticoneSizes_sel SetBlueScore_sel

lemma addBlue_sel:
  "selectedParent (addBlue node c st) = selectedParent node"
  "blues (addBlue node c st) = blues node @ [c]"
  by (simp_all add: addBlue_def setter_sel split: prod.splits)

lemma colorCandidates_selectedParent:
  "colorCandidates K isInPast cs node = Inr node' \<Longrightarrow> selectedParent node' = selectedParent node"
proof (induction cs arbitrary: node)
  case Nil
  then show ?case by simp
next
  case (Cons c cs)
  from Cons.prems show ?case
    by (auto simp: Let_def addBlue_sel split: sum.splits prod.splits if_splits dest!: Cons.IH)
qed

lemma colorCandidates_prefix:
  "colorCandidates K isInPast cs node = Inr node' \<Longrightarrow> \<exists>ext. blues node' = blues node @ ext"
proof (induction cs arbitrary: node)
  case Nil
  then show ?case by simp
next
  case (Cons c cs)
  from Cons.prems show ?case
    by (auto simp: Let_def addBlue_sel split: sum.splits prod.splits if_splits dest!: Cons.IH)
qed

lemma of_nat_Suc_unat: "(of_nat (Suc (unat K)) :: KType) = K + 1"
  by simp

lemma colorCandidates_length:
  assumes "colorCandidates K isInPast cs node = Inr node'"
    and "length (blues node) \<le> unat K"
  shows "length (blues node') \<le> Suc (unat K)"
  using assms
proof (induction cs arbitrary: node)
  case Nil
  then show ?case by simp
next
  case (Cons c cs)
  show ?case
  proof (cases "isPossiblyBlue K isInPast node c")
    case (Inl f)
    with Cons.prems show ?thesis by simp
  next
    case (Inr r)
    obtain st possiblyBlue where r: "r = (st, possiblyBlue)" by (cases r)
    show ?thesis
    proof (cases possiblyBlue)
      case False
      with Cons.prems Inr r Cons.IH [of node] show ?thesis by simp
    next
      case True
      let ?n = "addBlue node c st"
      have len: "length (blues ?n) = Suc (length (blues node))"
        by (simp add: addBlue_sel)
      show ?thesis
      proof (cases "(of_nat (length (blues ?n)) :: KType) = K + 1")
        case stop: True
        with Cons.prems Inr r True have "node' = ?n" by (simp add: Let_def)
        with len Cons.prems(2) show ?thesis by simp
      next
        case go: False
        with Cons.prems Inr r True have rec: "colorCandidates K isInPast cs ?n = Inr node'"
          by (simp add: Let_def)
        have "length (blues ?n) \<noteq> Suc (unat K)"
          using go of_nat_Suc_unat [of K] by auto
        with len Cons.prems(2) have "length (blues ?n) \<le> unat K" by simp
        with rec show ?thesis by (rule Cons.IH)
      qed
    qed
  qed
qed

lemma isPossiblyBlue_K0:
  assumes "isPossiblyBlue 0 isInPast node c = Inr (st, possiblyBlue)"
    and "blues node = [sp]"
    and "isInPast (Some sp) c \<noteq> Inr True"
  shows "\<not> possiblyBlue"
  using assms
  by (auto simp: isPossiblyBlue_def Let_def split: sum.splits if_splits prod.splits)

lemma colorCandidates_K0:
  assumes "colorCandidates 0 isInPast cs node = Inr node'"
    and "blues node = [sp]"
    and "\<forall>c\<in>set cs. isInPast (Some sp) c \<noteq> Inr True"
  shows "node' = node"
  using assms
proof (induction cs)
  case Nil
  then show ?case by simp
next
  case (Cons c cs)
  show ?case
  proof (cases "isPossiblyBlue 0 isInPast node c")
    case (Inl f)
    with Cons.prems show ?thesis by simp
  next
    case (Inr r)
    obtain st possiblyBlue where r: "r = (st, possiblyBlue)" by (cases r)
    have "\<not> possiblyBlue"
      using isPossiblyBlue_K0 [OF Inr [unfolded r] Cons.prems(2)] Cons.prems(3) by simp
    with Cons.prems Inr r have "colorCandidates 0 isInPast cs node = Inr node'" by simp
    with Cons.IH Cons.prems show ?thesis by simp
  qed
qed

lemma Run_Inr:
  assumes "Run K isInPast newNode = Inr (node, anticone)"
  obtains sp node1 node2 where
    "Bluest (parents newNode) = Some sp"
    "blues node1 = [sp]" "selectedParent node1 = Some sp"
    "colorCandidates K isInPast anticone node1 = Inr node2"
    "node = SetBlueScore node2 (blueScore sp + of_nat (length (blues node2)))"
proof -
  from assms obtain sp where bl: "Bluest (parents newNode) = Some sp"
    by (auto simp: Run_def split: option.splits)
  define node1 where
    "node1 = SetBlues (SetBluesAnticoneSizes (SetSelectedParent newNode (Some sp)) [(sp, 0)]) [sp]"
  from assms bl obtain a where
    a: "selectedParentAnticone isInPast node1 sp = Inr a" and s: "anticone = sortSlice a"
    by (auto simp: Run_def Let_def node1_def split: sum.splits)
  from assms bl a s obtain node2 where
    cc: "colorCandidates K isInPast anticone node1 = Inr node2"
    and n: "node = SetBlueScore node2 (blueScore sp + of_nat (length (blues node2)))"
    by (auto simp: Run_def Let_def node1_def [symmetric] split: sum.splits)
  have h: "blues node1 = [sp]" "selectedParent node1 = Some sp"
    by (simp_all add: node1_def setter_sel)
  from that [OF bl h cc n] show thesis .
qed

text \<open>
  C2. When Run returns, the blues of the node begin with its selected parent and are
  at most K + 1. For K = 0 this needs of the reachability query what the anticone of
  the selected parent means: no block of the returned anticone has the selected
  parent in its past.
\<close>

theorem Run_blues:
  assumes run: "Run K isInPast newNode = Inr (node, anticone)"
    and anticone: "K = 0 \<Longrightarrow> \<forall>c\<in>set anticone. isInPast (selectedParent node) c \<noteq> Inr True"
  shows "blues node \<noteq> [] \<and> selectedParent node = Some (blues node ! 0)
         \<and> length (blues node) \<le> unat K + 1"
proof -
  from run obtain sp node1 node2 where
    b1: "blues node1 = [sp]" and s1: "selectedParent node1 = Some sp"
    and cc: "colorCandidates K isInPast anticone node1 = Inr node2"
    and node: "node = SetBlueScore node2 (blueScore sp + of_nat (length (blues node2)))"
    by (rule Run_Inr)
  have s2: "selectedParent node = Some sp"
    using colorCandidates_selectedParent [OF cc] s1 by (simp add: node setter_sel)
  obtain ext where b2: "blues node = sp # ext"
    using colorCandidates_prefix [OF cc] b1 by (auto simp: node setter_sel)
  have len: "length (blues node) \<le> unat K + 1"
  proof (cases "K = 0")
    case True
    with anticone s2 have "\<forall>c\<in>set anticone. isInPast (Some sp) c \<noteq> Inr True" by simp
    with cc b1 True have "node2 = node1" by (auto dest: colorCandidates_K0)
    with b1 show ?thesis by (simp add: node setter_sel)
  next
    case False
    then have "1 \<le> unat K" by (simp add: unat_gt_0 Suc_leI)
    with b1 have "length (blues node1) \<le> unat K" by simp
    from colorCandidates_length [OF cc this] show ?thesis by (simp add: node setter_sel)
  qed
  from s2 b2 len show ?thesis by simp
qed

text \<open>
  C3, as the code has it. When Run returns, the node has parents and a selected
  parent, and its blue score is the blue score of the selected parent plus the number
  of its blues.
\<close>

theorem Run_blueScore:
  assumes run: "Run K isInPast newNode = Inr (node, anticone)"
  shows "\<not> IsGenesis newNode \<and> blueScoreInvariant node"
proof -
  from run obtain sp node1 node2 where
    bl: "Bluest (parents newNode) = Some sp"
    and s1: "selectedParent node1 = Some sp"
    and cc: "colorCandidates K isInPast anticone node1 = Inr node2"
    and node: "node = SetBlueScore node2 (blueScore sp + of_nat (length (blues node2)))"
    by (rule Run_Inr)
  have "parents newNode \<noteq> []"
    using bl Bluest_None_iff [of "parents newNode"] by auto
  moreover have "selectedParent node = Some sp"
    using colorCandidates_selectedParent [OF cc] s1 by (simp add: node setter_sel)
  ultimately show ?thesis
    by (simp add: blueScoreInvariant_def IsGenesis_def node setter_sel)
qed

lemma ex_Run3:
  "Run 3 ex_isInPast ex_merge =
     Inr (BlockNode 5 [ex_A, ex_B] (Some ex_A) [ex_A, ex_B] [(ex_A, 1), (ex_B, 1)] 3 0, [ex_B])"
  by code_simp

lemma ex_Run0:
  "Run 0 ex_isInPast ex_merge =
     Inr (BlockNode 5 [ex_A, ex_B] (Some ex_A) [ex_A] [(ex_A, 0)] 2 0, [ex_B])"
  by code_simp

text \<open>
  Run on the example node with K = 0 and with K = 3: the selected parent is A, the
  anticone of A is B; with K = 0 the blues are A alone, with K = 3 they are A and B.
\<close>

theorem Run_blues_witness:
  "Run 0 ex_isInPast ex_merge =
     Inr (BlockNode 5 [ex_A, ex_B] (Some ex_A) [ex_A] [(ex_A, 0)] 2 0, [ex_B])
   \<and> list_all (\<lambda>c. ex_isInPast (Some ex_A) c \<noteq> Inr True) [ex_B]
   \<and> blues (BlockNode 5 [ex_A, ex_B] (Some ex_A) [ex_A] [(ex_A, 0)] 2 0) ! 0 = ex_A
   \<and> length (blues (BlockNode 5 [ex_A, ex_B] (Some ex_A) [ex_A] [(ex_A, 0)] 2 0)) \<le> unat (0 :: KType) + 1
   \<and> Run 3 ex_isInPast ex_merge =
     Inr (BlockNode 5 [ex_A, ex_B] (Some ex_A) [ex_A, ex_B] [(ex_A, 1), (ex_B, 1)] 3 0, [ex_B])
   \<and> length (blues (BlockNode 5 [ex_A, ex_B] (Some ex_A) [ex_A, ex_B] [(ex_A, 1), (ex_B, 1)] 3 0))
        \<le> unat (3 :: KType) + 1"
proof -
  have anti: "list_all (\<lambda>c. ex_isInPast (Some ex_A) c \<noteq> Inr True) [ex_B]"
    by code_simp
  then have h0: "(0 :: KType) = 0 \<Longrightarrow>
      \<forall>c\<in>set [ex_B]. ex_isInPast
        (selectedParent (BlockNode 5 [ex_A, ex_B] (Some ex_A) [ex_A] [(ex_A, 0)] 2 0)) c \<noteq> Inr True"
    by simp
  have h3: "(3 :: KType) = 0 \<Longrightarrow>
      \<forall>c\<in>set [ex_B]. ex_isInPast
        (selectedParent (BlockNode 5 [ex_A, ex_B] (Some ex_A) [ex_A, ex_B] [(ex_A, 1), (ex_B, 1)] 3 0))
        c \<noteq> Inr True"
    by simp
  from Run_blues [OF ex_Run0 h0] Run_blues [OF ex_Run3 h3] ex_Run0 ex_Run3 anti
  show ?thesis by simp
qed

text \<open>
  C3 as stated includes the genesis. The genesis has no selected parent whose blue
  score could be added to, and Run on it ends in the panic of reading the blue score
  of a nil selected parent.
\<close>

theorem blueScore_genesis_counterexample:
  "IsGenesis ex_genesis \<and> selectedParent ex_genesis = None \<and> blueScore ex_genesis = 0
   \<and> \<not> blueScoreInvariant ex_genesis
   \<and> Run 3 ex_isInPast ex_genesis = Inl NilDereference"
  by (simp add: IsGenesis_def blueScoreInvariant_def ex_genesis_def Run_def)

text \<open>
  The example node gets the blue score 3: that of A, which is 1, plus two blues.
\<close>

theorem Run_blueScore_witness:
  "Run 3 ex_isInPast ex_merge =
     Inr (BlockNode 5 [ex_A, ex_B] (Some ex_A) [ex_A, ex_B] [(ex_A, 1), (ex_B, 1)] 3 0, [ex_B])
   \<and> \<not> IsGenesis ex_merge
   \<and> blueScoreInvariant (BlockNode 5 [ex_A, ex_B] (Some ex_A) [ex_A, ex_B] [(ex_A, 1), (ex_B, 1)] 3 0)
   \<and> blueScore ex_A = 1"
  using Run_blueScore [OF ex_Run3] ex_Run3 by (simp add: ex_A_def)

section \<open>Properties of the UTXO diff algebra\<close>

lemma withDiff_empty: "withDiff d NewUTXODiff = Inr d"
  by (simp add: withDiff_def NewUTXODiff_def collectionMeet_def collectionMinus_def
      containsWithBlueScore_def fun_eq_iff split: option.splits)

lemma diffRules_pointwise:
  assumes "diffRules d e"
  shows "toAdd d outpoint = Some a \<Longrightarrow> toRemove d outpoint = Some b
           \<Longrightarrow> BlockBlueScore a \<noteq> BlockBlueScore b"
    and "toAdd d outpoint = None \<or> toRemove e outpoint = None"
    and "toRemove d outpoint = None \<or> toAdd e outpoint = None"
    and "toAdd d outpoint = Some a \<Longrightarrow> toAdd e outpoint = Some c \<Longrightarrow> a = c"
    and "toRemove d outpoint = Some b \<Longrightarrow> toRemove e outpoint = Some c' \<Longrightarrow> b = c'"
proof -
  from assms have m: "collectionMeet (toAdd d) (toRemove d) outpoint = None"
    by (simp add: diffRules_def)
  from assms have dj1: "dom (toAdd d) \<inter> dom (toRemove e) = {}"
    and dj2: "dom (toRemove d) \<inter> dom (toAdd e) = {}"
    and ag1: "\<forall>outpoint\<in>dom (toAdd d) \<inter> dom (toAdd e). toAdd d outpoint = toAdd e outpoint"
    and ag2: "\<forall>outpoint\<in>dom (toRemove d) \<inter> dom (toRemove e).
                toRemove d outpoint = toRemove e outpoint"
    by (simp_all add: diffRules_def)
  show "toAdd d outpoint = Some a \<Longrightarrow> toRemove d outpoint = Some b
           \<Longrightarrow> BlockBlueScore a \<noteq> BlockBlueScore b"
    using m by (auto simp: collectionMeet_def containsWithBlueScore_def split: if_splits)
  show "toAdd d outpoint = None \<or> toRemove e outpoint = None"
    using dj1 by (cases "toAdd d outpoint"; cases "toRemove e outpoint") auto
  show "toRemove d outpoint = None \<or> toAdd e outpoint = None"
    using dj2 by (cases "toRemove d outpoint"; cases "toAdd e outpoint") auto
  show "toAdd d outpoint = Some a \<Longrightarrow> toAdd e outpoint = Some c \<Longrightarrow> a = c"
  proof -
    assume h: "toAdd d outpoint = Some a" "toAdd e outpoint = Some c"
    then have "outpoint \<in> dom (toAdd d) \<inter> dom (toAdd e)" by (simp add: domI)
    with ag1 have "toAdd d outpoint = toAdd e outpoint" by (rule bspec)
    with h show "a = c" by simp
  qed
  show "toRemove d outpoint = Some b \<Longrightarrow> toRemove e outpoint = Some c' \<Longrightarrow> b = c'"
  proof -
    assume h: "toRemove d outpoint = Some b" "toRemove e outpoint = Some c'"
    then have "outpoint \<in> dom (toRemove d) \<inter> dom (toRemove e)" by (simp add: domI)
    with ag2 have "toRemove d outpoint = toRemove e outpoint" by (rule bspec)
    with h show "b = c'" by simp
  qed
qed

lemmas collection_defs = collectionMeet_def collectionMinus_def containsWithBlueScore_def map_add_def

lemma withDiff_diffFrom:
  assumes "diffRules d e"
  shows "withDiff d
           \<lparr>toAdd = collectionMinus (toAdd e) (toAdd d) ++ collectionMinus (toRemove d) (toRemove e),
            toRemove = collectionMinus (toRemove e) (toRemove d) ++ collectionMinus (toAdd d) (toAdd e)\<rparr>
         = Inr e"
proof -
  let ?rA = "collectionMinus (toAdd e) (toAdd d) ++ collectionMinus (toRemove d) (toRemove e)"
  let ?rR = "collectionMinus (toRemove e) (toRemove d) ++ collectionMinus (toAdd d) (toAdd e)"
  have pw: "collectionMeet (toAdd d) ?rA outpoint = None
          \<and> collectionMeet (toRemove d) ?rR outpoint = None
          \<and> (collectionMinus (toAdd d) ?rR ++ collectionMinus ?rA (toRemove d)) outpoint
               = toAdd e outpoint
          \<and> (collectionMinus (toRemove d) ?rA ++ collectionMinus ?rR (toAdd d)) outpoint
               = toRemove e outpoint" for outpoint
  proof -
    have r1: "toAdd d outpoint = Some a \<Longrightarrow> toRemove d outpoint = Some b
                \<Longrightarrow> BlockBlueScore a \<noteq> BlockBlueScore b" for a b
      by (rule diffRules_pointwise(1) [OF assms])
    have r2: "toAdd d outpoint = None \<or> toRemove e outpoint = None"
      by (rule diffRules_pointwise(2) [OF assms])
    have r3: "toRemove d outpoint = None \<or> toAdd e outpoint = None"
      by (rule diffRules_pointwise(3) [OF assms])
    have r4: "toAdd d outpoint = Some a \<Longrightarrow> toAdd e outpoint = Some c \<Longrightarrow> a = c" for a c
      by (rule diffRules_pointwise(4) [OF assms])
    have r5: "toRemove d outpoint = Some b \<Longrightarrow> toRemove e outpoint = Some c \<Longrightarrow> b = c" for b c
      by (rule diffRules_pointwise(5) [OF assms])
    show ?thesis
    proof (cases "toAdd d outpoint")
      case dA: None
      show ?thesis
      proof (cases "toRemove d outpoint")
        case dR: None
        show ?thesis
          by (cases "toAdd e outpoint"; cases "toRemove e outpoint")
            (simp_all add: collection_defs dA dR)
      next
        case dR: (Some b)
        with r3 have eA: "toAdd e outpoint = None" by simp
        show ?thesis
        proof (cases "toRemove e outpoint")
          case None
          then show ?thesis by (simp add: collection_defs dA dR eA)
        next
          case (Some c)
          with r5 dR have "b = c" by simp
          with Some show ?thesis by (simp add: collection_defs dA dR eA)
        qed
      qed
    next
      case dA: (Some a)
      with r2 have eR: "toRemove e outpoint = None" by simp
      show ?thesis
      proof (cases "toRemove d outpoint")
        case dR: None
        show ?thesis
        proof (cases "toAdd e outpoint")
          case None
          then show ?thesis by (simp add: collection_defs dA dR eR)
        next
          case (Some c)
          with r4 dA have "a = c" by simp
          with Some show ?thesis by (simp add: collection_defs dA dR eR)
        qed
      next
        case dR: (Some b)
        with r3 have eA: "toAdd e outpoint = None" by simp
        from r1 dA dR have "BlockBlueScore a \<noteq> BlockBlueScore b" by simp
        then show ?thesis by (auto simp: collection_defs dA dR eA eR)
      qed
    qed
  qed
  have "collectionMeet (toAdd d) ?rA = Map.empty" "collectionMeet (toRemove d) ?rR = Map.empty"
    "collectionMinus (toAdd d) ?rR ++ collectionMinus ?rA (toRemove d) = toAdd e"
    "collectionMinus (toRemove d) ?rA ++ collectionMinus ?rR (toAdd d) = toRemove e"
    using pw by (simp_all add: fun_eq_iff)
  then show ?thesis
    by (simp add: withDiff_def)
qed

lemma diffFrom_defined:
  assumes "diffRules d e"
  shows "diffFrom d e =
    Inr \<lparr>toAdd = collectionMinus (toAdd e) (toAdd d) ++ collectionMinus (toRemove d) (toRemove e),
         toRemove = collectionMinus (toRemove e) (toRemove d) ++ collectionMinus (toAdd d) (toAdd e)\<rparr>"
proof -
  have "collectionMeet (toAdd d) (toRemove e) outpoint = None" for outpoint
    using diffRules_pointwise(2) [OF assms, of outpoint]
    by (auto simp: collectionMeet_def containsWithBlueScore_def split: option.splits)
  moreover have "collectionMeet (toRemove d) (toAdd e) outpoint = None" for outpoint
    using diffRules_pointwise(3) [OF assms, of outpoint]
    by (auto simp: collectionMeet_def containsWithBlueScore_def split: option.splits)
  ultimately have "collectionMeet (toAdd d) (toRemove e) = Map.empty"
    "collectionMeet (toRemove d) (toAdd e) = Map.empty"
    by (simp_all add: fun_eq_iff)
  then show ?thesis
    by (simp add: diffFrom_def)
qed

text \<open>
  C4. For diffs d and e that satisfy the diff rules, diffFrom(d, e) is defined and
  composing d with it yields e; and composing any diff d with the empty diff yields d.
\<close>

theorem withDiff_algebra:
  "(diffRules d e \<longrightarrow> (\<exists>r. diffFrom d e = Inr r \<and> withDiff d r = Inr e))
   \<and> withDiff d NewUTXODiff = Inr d"
proof (intro conjI impI)
  assume rules: "diffRules d e"
  from diffFrom_defined [OF rules] withDiff_diffFrom [OF rules]
  show "\<exists>r. diffFrom d e = Inr r \<and> withDiff d r = Inr e" by blast
next
  show "withDiff d NewUTXODiff = Inr d" by (rule withDiff_empty)
qed

lemma ex_diffRules: "diffRules ex_d ex_e"
  by (simp add: diffRules_def ex_d_def ex_e_def ex_out_def collectionMeet_def
      containsWithBlueScore_def fun_eq_iff)

text \<open>
  For the example diffs, diffFrom(d, e) adds outpoints 2 and 3, and d composed with it
  is e.
\<close>

theorem withDiff_algebra_witness:
  "diffRules ex_d ex_e
   \<and> diffFrom ex_d ex_e
       = Inr \<lparr>toAdd = [ex_out 2 \<mapsto> ex_entry, ex_out 3 \<mapsto> ex_entry], toRemove = Map.empty\<rparr>
   \<and> withDiff ex_d \<lparr>toAdd = [ex_out 2 \<mapsto> ex_entry, ex_out 3 \<mapsto> ex_entry], toRemove = Map.empty\<rparr>
       = Inr ex_e
   \<and> withDiff ex_d NewUTXODiff = Inr ex_d"
proof -
  have df: "diffFrom ex_d ex_e
       = Inr \<lparr>toAdd = [ex_out 2 \<mapsto> ex_entry, ex_out 3 \<mapsto> ex_entry], toRemove = Map.empty\<rparr>"
    by (simp add: diffFrom_def ex_d_def ex_e_def ex_out_def collection_defs fun_eq_iff)
  from withDiff_algebra [of ex_d ex_e] ex_diffRules df show ?thesis by auto
qed

end
